theory Spec2Isabelle
  imports Complex_Main "HOL-Library.AList"
begin

section \<open>Values, library behaviour and batches\<close>

text \<open>
  The pipeline of \<^verbatim>\<open>src/processing/data_cleaning.py\<close> works on pandas DataFrames.
  A cell of a DataFrame is one of the scalars below. Python strings are modelled as
  \<^typ>\<open>string\<close>, each \<^typ>\<open>char\<close> standing for one code point below 256.
  A finite float64 is represented by the rational number it denotes, so comparisons between
  floats and integers are exact; the three missing-value markers of pandas
  (\<^verbatim>\<open>None\<close>, \<^verbatim>\<open>NaN\<close>, \<^verbatim>\<open>NaT\<close>) are kept apart because
  \<^verbatim>\<open>json.dumps\<close> treats them differently.
\<close>

datatype timestamp = Timestamp (year: nat) (month: nat) (day: nat) (hour: nat) (minute: nat) (second: nat)

datatype flt = Fin rat | PInf | NInf | NaN

datatype cell = NoneV | NaT | StrV string | IntV int | FltV flt | TimeV timestamp

datatype dtype = Int64 | Float64 | Datetime64 | Object

datatype num = NInt int | NFlt flt

text \<open>
  Behaviour of pandas and of the float unit that the repository relies on but does not
  define is a parameter of the model: how \<^verbatim>\<open>pd.to_numeric\<close> reads a string
  (\<open>None\<close> is its \<^verbatim>\<open>ValueError\<close>), how \<^verbatim>\<open>pd.to_datetime(errors='coerce', dayfirst=True)\<close>
  reads a cell (\<open>None\<close> is \<^verbatim>\<open>NaT\<close>), float addition, the conversion of an
  integer to a float, and \<^verbatim>\<open>repr\<close> of a finite float.
\<close>

record pylib =
  parse_numeric :: "string \<Rightarrow> num option"
  parse_datetime :: "cell \<Rightarrow> timestamp option"
  float_add :: "flt \<Rightarrow> flt \<Rightarrow> flt"
  float_of_int :: "int \<Rightarrow> flt"
  float_repr :: "rat \<Rightarrow> string"

datatype error = TypeError | ValueError_unpack | QueryError | Exception string

text \<open>
  A batch: the column labels and the rows, each row holding one cell per column.
  The dtype of a column is derived from its cells, as pandas infers it when the batch is
  built from the rows of one typed source column.
\<close>

record frame =
  columns :: "string list"
  rows :: "cell list list"

definition wf_frame :: "frame \<Rightarrow> bool" where
  "wf_frame df \<longleftrightarrow> distinct (columns df) \<and> list_all (\<lambda>r. length r = length (columns df)) (rows df)"

fun isnull :: "cell \<Rightarrow> bool" where
  "isnull NoneV = True"
| "isnull NaT = True"
| "isnull (FltV NaN) = True"
| "isnull _ = False"

fun is_int :: "cell \<Rightarrow> bool" where
  "is_int (IntV _) = True"
| "is_int _ = False"

fun is_number :: "cell \<Rightarrow> bool" where
  "is_number (IntV _) = True"
| "is_number (FltV _) = True"
| "is_number _ = False"

fun is_datetime :: "cell \<Rightarrow> bool" where
  "is_datetime (TimeV _) = True"
| "is_datetime NaT = True"
| "is_datetime _ = False"

fun is_str :: "cell \<Rightarrow> bool" where
  "is_str (StrV _) = True"
| "is_str _ = False"

definition dtype_of :: "cell list \<Rightarrow> dtype" where
  "dtype_of vs =
     (if list_all is_int vs then Int64
      else if list_all is_number vs then Float64
      else if list_all is_datetime vs then Datetime64
      else Object)"

definition cell_of :: "string list \<Rightarrow> cell list \<Rightarrow> string \<Rightarrow> cell" where
  "cell_of cols r c = (case map_of (zip cols r) c of Some v \<Rightarrow> v | None \<Rightarrow> NoneV)"

definition column :: "frame \<Rightarrow> string \<Rightarrow> cell list" where
  "column df c = map (\<lambda>r. cell_of (columns df) r c) (rows df)"

definition update_cell :: "string list \<Rightarrow> string \<Rightarrow> cell \<Rightarrow> cell list \<Rightarrow> cell list" where
  "update_cell cols c v r = map (\<lambda>(k, x). if k = c then v else x) (zip cols r)"

text \<open>\<^verbatim>\<open>df[c] = vs\<close>: an existing column is overwritten in place, a new one is appended.\<close>

definition set_column :: "frame \<Rightarrow> string \<Rightarrow> cell list \<Rightarrow> frame" where
  "set_column df c vs =
     (if c \<in> set (columns df)
      then df\<lparr>rows := map (\<lambda>(r, v). update_cell (columns df) c v r) (zip (rows df) vs)\<rparr>
      else df\<lparr>columns := columns df @ [c], rows := map (\<lambda>(r, v). r @ [v]) (zip (rows df) vs)\<rparr>)"

text \<open>\<^verbatim>\<open>df[[c1, ..., cn]]\<close> for labels that are present.\<close>

definition select_columns :: "frame \<Rightarrow> string list \<Rightarrow> frame" where
  "select_columns df cs =
     \<lparr>columns = cs, rows = map (\<lambda>r. map (cell_of (columns df) r) cs) (rows df)\<rparr>"

section \<open>Strings and numerals\<close>

text \<open>
  \<^verbatim>\<open>str.lower\<close> on code points below 256: the letters A to Z and the upper-case
  letters of Latin-1 (\<open>0xC0\<close> to \<open>0xDE\<close> without the multiplication sign \<open>0xD7\<close>)
  move up by 32; nothing else changes.
\<close>

definition lower_char :: "char \<Rightarrow> char" where
  "lower_char c =
     (let n = (of_char c :: nat)
      in if (65 \<le> n \<and> n \<le> 90) \<or> (192 \<le> n \<and> n \<le> 222 \<and> n \<noteq> 215) then char_of (n + 32) else c)"

definition lower :: "string \<Rightarrow> string" where
  "lower s = map lower_char s"

definition digit_char :: "nat \<Rightarrow> char" where
  "digit_char n = char_of (48 + n)"

function show_nat :: "nat \<Rightarrow> string" where
  "show_nat n = (if n < 10 then [digit_char n] else show_nat (n div 10) @ [digit_char (n mod 10)])"
  by pat_completeness auto
termination
  by (relation "measure id") auto

declare show_nat.simps [simp del]

definition show_int :: "int \<Rightarrow> string" where
  "show_int i = (if i < 0 then CHR ''-'' # show_nat (nat (- i)) else show_nat (nat i))"

definition pad2 :: "nat \<Rightarrow> string" where
  "pad2 n = (if n < 10 then CHR ''0'' # show_nat n else show_nat n)"

definition pad4 :: "nat \<Rightarrow> string" where
  "pad4 n = replicate (4 - length (show_nat n)) CHR ''0'' @ show_nat n"

text \<open>\<^verbatim>\<open>strftime('%Y-%m-%d %H:%M:%S')\<close>\<close>

definition strftime :: "timestamp \<Rightarrow> string" where
  "strftime t =
     pad4 (year t) @ ''-'' @ pad2 (month t) @ ''-'' @ pad2 (day t) @ '' '' @
     pad2 (hour t) @ '':'' @ pad2 (minute t) @ '':'' @ pad2 (second t)"

section \<open>The stages of \<^verbatim>\<open>data_cleaning.py\<close>\<close>

text \<open>\<^verbatim>\<open>clean_data\<close>: \<^verbatim>\<open>df.dropna(inplace=True)\<close> drops every row holding a missing value.\<close>

definition clean_data :: "frame \<Rightarrow> frame" where
  "clean_data df = df\<lparr>rows := filter (\<lambda>r. \<not> list_ex isnull r) (rows df)\<rparr>"

text \<open>
  \<^verbatim>\<open>normalize_data\<close>: \<^verbatim>\<open>applymap\<close> lowers every string cell; then every column of
  dtype datetime is replaced by its \<^verbatim>\<open>strftime\<close> text (\<^verbatim>\<open>NaT\<close> becomes \<^verbatim>\<open>NaN\<close>).
\<close>

fun lower_cell :: "cell \<Rightarrow> cell" where
  "lower_cell (StrV s) = StrV (lower s)"
| "lower_cell v = v"

fun strftime_cell :: "cell \<Rightarrow> cell" where
  "strftime_cell (TimeV t) = StrV (strftime t)"
| "strftime_cell NaT = FltV NaN"
| "strftime_cell v = v"

definition applymap :: "(cell \<Rightarrow> cell) \<Rightarrow> frame \<Rightarrow> frame" where
  "applymap f df = df\<lparr>rows := map (map f) (rows df)\<rparr>"

definition format_datetime_column :: "frame \<Rightarrow> string \<Rightarrow> frame" where
  "format_datetime_column df c =
     (if dtype_of (column df c) = Datetime64
      then set_column df c (map strftime_cell (column df c))
      else df)"

definition normalize_data :: "frame \<Rightarrow> frame" where
  "normalize_data df =
     (let df1 = applymap lower_cell df
      in foldl format_datetime_column df1 (columns df1))"


text \<open>
  \<^verbatim>\<open>aggregate_data\<close>: when the labels \<^verbatim>\<open>category\<close> and \<^verbatim>\<open>amount\<close> are both
  present, \<^verbatim>\<open>df.groupby('category', as_index=False)['amount'].sum()\<close> replaces the
  batch: one row per distinct non-missing category, in sorted key order, holding the key
  and the sum of the group's amounts; every other column is gone. The sum follows the dtype
  of the amount column: int64 wraps around, float64 skips \<^verbatim>\<open>NaN\<close>, datetimes cannot
  be summed, and an object column is folded with Python's \<^verbatim>\<open>+\<close> over its non-missing
  cells.
\<close>

definition wrap64 :: "int \<Rightarrow> int" where
  "wrap64 i = (i + 2 ^ 63) mod 2 ^ 64 - 2 ^ 63"

fun lex_le :: "nat list \<Rightarrow> nat list \<Rightarrow> bool" where
  "lex_le [] _ = True"
| "lex_le (x # xs) [] = False"
| "lex_le (x # xs) (y # ys) = (x < y \<or> (x = y \<and> lex_le xs ys))"

fun flt_le :: "flt \<Rightarrow> flt \<Rightarrow> bool" where
  "flt_le NaN _ = False"
| "flt_le _ NaN = False"
| "flt_le NInf _ = True"
| "flt_le _ PInf = True"
| "flt_le (Fin a) (Fin b) = (a \<le> b)"
| "flt_le _ _ = False"

fun exact_flt :: "cell \<Rightarrow> flt" where
  "exact_flt (IntV i) = Fin (of_int i)"
| "exact_flt (FltV f) = f"
| "exact_flt _ = NaN"

fun key_rank :: "cell \<Rightarrow> nat" where
  "key_rank (IntV _) = 0"
| "key_rank (FltV _) = 0"
| "key_rank (StrV _) = 1"
| "key_rank (TimeV _) = 2"
| "key_rank _ = 3"

fun key_le :: "cell \<Rightarrow> cell \<Rightarrow> bool" where
  "key_le (StrV a) (StrV b) = lex_le (map of_char a) (map of_char b)"
| "key_le (TimeV a) (TimeV b) =
     lex_le [year a, month a, day a, hour a, minute a, second a]
            [year b, month b, day b, hour b, minute b, second b]"
| "key_le a b =
     (if key_rank a = 0 \<and> key_rank b = 0 then flt_le (exact_flt a) (exact_flt b)
      else key_rank a \<le> key_rank b)"

fun insert_key :: "cell \<Rightarrow> cell list \<Rightarrow> cell list" where
  "insert_key k [] = [k]"
| "insert_key k (x # xs) = (if key_le k x then k # x # xs else x # insert_key k xs)"

definition sort_keys :: "cell list \<Rightarrow> cell list" where
  "sort_keys ks = foldr insert_key ks []"

text \<open>The first occurrence of every element, in order of appearance.\<close>

fun keep_first :: "'a list \<Rightarrow> 'a list" where
  "keep_first [] = []"
| "keep_first (x # xs) = x # keep_first (filter (\<lambda>y. y \<noteq> x) xs)"

definition to_float :: "pylib \<Rightarrow> cell \<Rightarrow> cell" where
  "to_float lib v = (case v of IntV i \<Rightarrow> FltV (float_of_int lib i) | _ \<Rightarrow> v)"

fun py_add :: "pylib \<Rightarrow> cell \<Rightarrow> cell \<Rightarrow> error + cell" where
  "py_add lib (StrV a) (StrV b) = Inr (StrV (a @ b))"
| "py_add lib (IntV a) (IntV b) = Inr (IntV (a + b))"
| "py_add lib (IntV a) (FltV b) = Inr (FltV (float_add lib (float_of_int lib a) b))"
| "py_add lib (FltV a) (IntV b) = Inr (FltV (float_add lib a (float_of_int lib b)))"
| "py_add lib (FltV a) (FltV b) = Inr (FltV (float_add lib a b))"
| "py_add lib _ _ = Inl TypeError"

fun object_sum :: "pylib \<Rightarrow> cell \<Rightarrow> cell list \<Rightarrow> error + cell" where
  "object_sum lib acc [] = Inr acc"
| "object_sum lib acc (v # vs) =
     (case py_add lib acc v of Inl e \<Rightarrow> Inl e | Inr acc' \<Rightarrow> object_sum lib acc' vs)"

definition group_sum :: "pylib \<Rightarrow> dtype \<Rightarrow> cell list \<Rightarrow> error + cell" where
  "group_sum lib dt vs =
     (case dt of
        Int64 \<Rightarrow> Inr (IntV (wrap64 (sum_list (map (\<lambda>v. case v of IntV i \<Rightarrow> i | _ \<Rightarrow> 0) vs))))
      | Float64 \<Rightarrow>
          Inr (FltV (foldl (float_add lib) (Fin 0)
                 (map (\<lambda>v. exact_flt (to_float lib v)) (filter (\<lambda>v. \<not> isnull v) vs))))
      | Datetime64 \<Rightarrow> Inl TypeError
      | Object \<Rightarrow>
          (case filter (\<lambda>v. \<not> isnull v) vs of
             [] \<Rightarrow> Inr (IntV 0)
           | v # rest \<Rightarrow> object_sum lib v rest))"

fun group_rows :: "pylib \<Rightarrow> frame \<Rightarrow> cell list \<Rightarrow> error + cell list list" where
  "group_rows lib df [] = Inr []"
| "group_rows lib df (k # ks) =
     (case group_sum lib (dtype_of (column df ''amount''))
             (map (\<lambda>r. cell_of (columns df) r ''amount'')
                (filter (\<lambda>r. cell_of (columns df) r ''category'' = k) (rows df))) of
        Inl e \<Rightarrow> Inl e
      | Inr s \<Rightarrow>
          (case group_rows lib df ks of
             Inl e \<Rightarrow> Inl e
           | Inr rs \<Rightarrow> Inr ([k, s] # rs)))"

definition aggregate_data :: "pylib \<Rightarrow> frame \<Rightarrow> error + frame" where
  "aggregate_data lib df =
     (if ''category'' \<in> set (columns df) \<and> ''amount'' \<in> set (columns df)
      then (case group_rows lib df
                   (sort_keys (keep_first (filter (\<lambda>v. \<not> isnull v) (column df ''category'')))) of
              Inl e \<Rightarrow> Inl e
            | Inr rs \<Rightarrow> Inr \<lparr>columns = [''category'', ''amount''], rows = rs\<rparr>)
      else Inr df)"

text \<open>
  \<^verbatim>\<open>filter_data\<close>: with a \<^verbatim>\<open>status\<close> column, \<^verbatim>\<open>df[df['status'] == 'active']\<close>
  keeps the rows whose status cell is the string \<^verbatim>\<open>active\<close>.
\<close>

definition filter_data :: "frame \<Rightarrow> frame" where
  "filter_data df =
     (if ''status'' \<in> set (columns df)
      then df\<lparr>rows := filter (\<lambda>r. cell_of (columns df) r ''status'' = StrV ''active'') (rows df)\<rparr>
      else df)"

text \<open>
  \<^verbatim>\<open>convert_data_types\<close>. First loop: every column of dtype object goes through
  \<^verbatim>\<open>pd.to_numeric\<close>, which reads the cells in order; a string it cannot read raises
  \<^verbatim>\<open>ValueError\<close>, which the loop catches (the column is left as it is), a datetime
  object raises \<^verbatim>\<open>TypeError\<close>, which nothing catches. A result that is not all
  integers is a float column. Second loop: every column whose label contains
  \<^verbatim>\<open>date\<close> goes through \<^verbatim>\<open>pd.to_datetime(errors='coerce', dayfirst=True)\<close>.
\<close>

datatype numeric_failure = ValueError | InvalidObjectType

fun to_numeric_cell :: "pylib \<Rightarrow> cell \<Rightarrow> numeric_failure + cell" where
  "to_numeric_cell lib (StrV s) =
     (case parse_numeric lib s of
        None \<Rightarrow> Inl ValueError
      | Some (NInt i) \<Rightarrow> Inr (IntV i)
      | Some (NFlt f) \<Rightarrow> Inr (FltV f))"
| "to_numeric_cell lib (IntV i) = Inr (IntV i)"
| "to_numeric_cell lib (FltV f) = Inr (FltV f)"
| "to_numeric_cell lib NoneV = Inr (FltV NaN)"
| "to_numeric_cell lib NaT = Inr (FltV NaN)"
| "to_numeric_cell lib (TimeV t) = Inl InvalidObjectType"

fun to_numeric_cells :: "pylib \<Rightarrow> cell list \<Rightarrow> numeric_failure + cell list" where
  "to_numeric_cells lib [] = Inr []"
| "to_numeric_cells lib (v # vs) =
     (case to_numeric_cell lib v of
        Inl e \<Rightarrow> Inl e
      | Inr n \<Rightarrow> (case to_numeric_cells lib vs of Inl e \<Rightarrow> Inl e | Inr ns \<Rightarrow> Inr (n # ns)))"

definition to_numeric :: "pylib \<Rightarrow> cell list \<Rightarrow> numeric_failure + cell list" where
  "to_numeric lib vs =
     (case to_numeric_cells lib vs of
        Inl e \<Rightarrow> Inl e
      | Inr ns \<Rightarrow> Inr (if list_all is_int ns then ns else map (to_float lib) ns))"

text \<open>
  The loop assigns \<^verbatim>\<open>df[col]\<close> as it goes, so when \<^verbatim>\<open>TypeError\<close> leaves it the
  columns converted so far stay converted: the result is the exception, if any, and the
  batch as the loop left it.
\<close>

fun convert_numeric :: "pylib \<Rightarrow> frame \<Rightarrow> string list \<Rightarrow> error option \<times> frame" where
  "convert_numeric lib df [] = (None, df)"
| "convert_numeric lib df (c # cs) =
     (if dtype_of (column df c) = Object
      then (case to_numeric lib (column df c) of
              Inl ValueError \<Rightarrow> convert_numeric lib df cs
            | Inl InvalidObjectType \<Rightarrow> (Some TypeError, df)
            | Inr vs \<Rightarrow> convert_numeric lib (set_column df c vs) cs)
      else convert_numeric lib df cs)"

text \<open>\<^verbatim>\<open>s.startswith(p)\<close> and \<^verbatim>\<open>p in s\<close> for Python strings.\<close>

fun startswith :: "string \<Rightarrow> string \<Rightarrow> bool" where
  "startswith s [] = True"
| "startswith [] (c # p) = False"
| "startswith (d # s) (c # p) = (d = c \<and> startswith s p)"

fun contains :: "string \<Rightarrow> string \<Rightarrow> bool" where
  "contains [] p = startswith [] p"
| "contains (d # s) p = (startswith (d # s) p \<or> contains s p)"

fun to_datetime_cell :: "pylib \<Rightarrow> cell \<Rightarrow> cell" where
  "to_datetime_cell lib (TimeV t) = TimeV t"
| "to_datetime_cell lib NoneV = NaT"
| "to_datetime_cell lib NaT = NaT"
| "to_datetime_cell lib (FltV NaN) = NaT"
| "to_datetime_cell lib v = (case parse_datetime lib v of None \<Rightarrow> NaT | Some t \<Rightarrow> TimeV t)"

definition convert_date_column :: "pylib \<Rightarrow> frame \<Rightarrow> string \<Rightarrow> frame" where
  "convert_date_column lib df c =
     (if contains c ''date'' then set_column df c (map (to_datetime_cell lib) (column df c)) else df)"

definition convert_in_place :: "pylib \<Rightarrow> frame \<Rightarrow> error option \<times> frame" where
  "convert_in_place lib df =
     (case convert_numeric lib df (columns df) of
        (Some e, df1) \<Rightarrow> (Some e, df1)
      | (None, df1) \<Rightarrow> (None, foldl (convert_date_column lib) df1 (columns df1)))"

definition convert_data_types :: "pylib \<Rightarrow> frame \<Rightarrow> error + frame" where
  "convert_data_types lib df =
     (case convert_in_place lib df of (Some e, _) \<Rightarrow> Inl e | (None, df') \<Rightarrow> Inr df')"

text \<open>\<^verbatim>\<open>remove_duplicates\<close>: \<^verbatim>\<open>df.drop_duplicates(inplace=True)\<close> keeps the first of equal rows.\<close>

definition remove_duplicates :: "frame \<Rightarrow> frame" where
  "remove_duplicates df = df\<lparr>rows := keep_first (rows df)\<rparr>"

text \<open>\<^verbatim>\<open>map_fields\<close>: \<^verbatim>\<open>df.rename(columns={'old_column_name': 'new_column_name'}, inplace=True)\<close>.\<close>

definition map_fields :: "frame \<Rightarrow> frame" where
  "map_fields df =
     df\<lparr>columns := map (\<lambda>c. if c = ''old_column_name'' then ''new_column_name'' else c) (columns df)\<rparr>"

text \<open>
  \<^verbatim>\<open>validate_data\<close>: with an \<^verbatim>\<open>amount\<close> column,
  \<^verbatim>\<open>df[df['amount'].between(0, 1000000)]\<close>. \<^verbatim>\<open>between\<close> is
  \<^verbatim>\<open>(0 <= x) & (x <= 1000000)\<close>, both ends included; a missing value compares false;
  comparing a string or a datetime with an integer raises \<^verbatim>\<open>TypeError\<close>.
\<close>

fun between :: "cell \<Rightarrow> bool" where
  "between (IntV i) = (0 \<le> i \<and> i \<le> 1000000)"
| "between (FltV f) = (flt_le (Fin 0) f \<and> flt_le f (Fin 1000000))"
| "between _ = False"

definition validate_data :: "frame \<Rightarrow> error + frame" where
  "validate_data df =
     (if ''amount'' \<in> set (columns df)
      then (if list_ex (\<lambda>v. is_str v \<or> is_datetime v) (column df ''amount'')
            then Inl TypeError
            else Inr (df\<lparr>rows := filter (\<lambda>r. between (cell_of (columns df) r ''amount'')) (rows df)\<rparr>))
      else Inr df)"


section \<open>Serialisation and \<^verbatim>\<open>transform_data\<close>\<close>

text \<open>
  \<^verbatim>\<open>json.dumps\<close> with its defaults (\<^verbatim>\<open>ensure_ascii=True\<close>, separators
  \<^verbatim>\<open>', '\<close> and \<^verbatim>\<open>': '\<close>, \<^verbatim>\<open>allow_nan=True\<close>). Inside a string the quote, the
  backslash and the control characters are escaped, and every code point outside
  \<open>0x20\<close> to \<open>0x7E\<close> is written \<^verbatim>\<open>\u00XX\<close>. A \<^verbatim>\<open>Timestamp\<close> and \<^verbatim>\<open>NaT\<close> are
  not serialisable: \<^verbatim>\<open>json.dumps\<close> raises \<^verbatim>\<open>TypeError\<close>.
\<close>

definition hex_digit :: "nat \<Rightarrow> char" where
  "hex_digit n = (if n < 10 then char_of (48 + n) else char_of (87 + n))"

definition json_escape_char :: "char \<Rightarrow> string" where
  "json_escape_char c =
     (let n = (of_char c :: nat)
      in if n = 0x22 then [CHR 0x5C, CHR 0x22]
         else if n = 0x5C then [CHR 0x5C, CHR 0x5C]
         else if n = 0x0A then [CHR 0x5C, CHR ''n'']
         else if n = 0x0D then [CHR 0x5C, CHR ''r'']
         else if n = 0x09 then [CHR 0x5C, CHR ''t'']
         else if n = 0x08 then [CHR 0x5C, CHR ''b'']
         else if n = 0x0C then [CHR 0x5C, CHR ''f'']
         else if n < 0x20 \<or> 0x7E < n
           then [CHR 0x5C, CHR ''u'', CHR ''0'', CHR ''0'', hex_digit (n div 16), hex_digit (n mod 16)]
         else [c])"

definition json_string :: "string \<Rightarrow> string" where
  "json_string s = CHR 0x22 # concat (map json_escape_char s) @ [CHR 0x22]"

fun json_float :: "pylib \<Rightarrow> flt \<Rightarrow> string" where
  "json_float lib (Fin q) = float_repr lib q"
| "json_float lib PInf = ''Infinity''"
| "json_float lib NInf = ''-Infinity''"
| "json_float lib NaN = ''NaN''"

fun json_value :: "pylib \<Rightarrow> cell \<Rightarrow> error + string" where
  "json_value lib NoneV = Inr ''null''"
| "json_value lib (StrV s) = Inr (json_string s)"
| "json_value lib (IntV i) = Inr (show_int i)"
| "json_value lib (FltV f) = Inr (json_float lib f)"
| "json_value lib NaT = Inl TypeError"
| "json_value lib (TimeV t) = Inl TypeError"

fun json_members :: "pylib \<Rightarrow> (string \<times> cell) list \<Rightarrow> error + string list" where
  "json_members lib [] = Inr []"
| "json_members lib ((k, v) # kvs) =
     (case json_value lib v of
        Inl e \<Rightarrow> Inl e
      | Inr j \<Rightarrow>
          (case json_members lib kvs of
             Inl e \<Rightarrow> Inl e
           | Inr ms \<Rightarrow> Inr ((json_string k @ '': '' @ j) # ms)))"

fun join :: "string \<Rightarrow> string list \<Rightarrow> string" where
  "join sep [] = []"
| "join sep [x] = x"
| "join sep (x # y # ys) = x @ sep @ join sep (y # ys)"

definition json_dumps :: "pylib \<Rightarrow> (string \<times> cell) list \<Rightarrow> error + string" where
  "json_dumps lib d =
     (case json_members lib d of
        Inl e \<Rightarrow> Inl e
      | Inr ms \<Rightarrow> Inr (''{'' @ join '', '' ms @ ''}''))"

text \<open>\<^verbatim>\<open>.replace("'", "\\'")\<close>: a backslash is put before every single quote.\<close>

definition escape_quotes :: "string \<Rightarrow> string" where
  "escape_quotes s = concat (map (\<lambda>c. if c = CHR 0x27 then [CHR 0x5C, CHR 0x27] else [c]) s)"

text \<open>
  \<^verbatim>\<open>df.apply(f, axis=1)\<close> hands \<open>f\<close> each row as a Series of the common dtype of the
  columns: when every column is numeric and one of them is a float column, the integers of
  the row arrive as floats. \<^verbatim>\<open>x.to_dict()\<close> is then a dict from label to cell.
\<close>

definition upcasts :: "frame \<Rightarrow> bool" where
  "upcasts df \<longleftrightarrow>
     list_all (\<lambda>c. dtype_of (column df c) = Int64 \<or> dtype_of (column df c) = Float64) (columns df) \<and>
     list_ex (\<lambda>c. dtype_of (column df c) = Float64) (columns df)"

definition row_series :: "pylib \<Rightarrow> frame \<Rightarrow> cell list \<Rightarrow> cell list" where
  "row_series lib df r = (if upcasts df then map (to_float lib) r else r)"

definition to_dict :: "string list \<Rightarrow> cell list \<Rightarrow> (string \<times> cell) list" where
  "to_dict cols r = foldl (\<lambda>d (k, v). AList.update k v d) [] (zip cols r)"

definition payload :: "pylib \<Rightarrow> frame \<Rightarrow> cell list \<Rightarrow> error + string" where
  "payload lib df r =
     (case json_dumps lib (to_dict (columns df) (row_series lib df r)) of
        Inl e \<Rightarrow> Inl e
      | Inr j \<Rightarrow> Inr (escape_quotes j))"

fun payloads :: "pylib \<Rightarrow> frame \<Rightarrow> cell list list \<Rightarrow> error + cell list" where
  "payloads lib df [] = Inr []"
| "payloads lib df (r # rs) =
     (case payload lib df r of
        Inl e \<Rightarrow> Inl e
      | Inr p \<Rightarrow> (case payloads lib df rs of Inl e \<Rightarrow> Inl e | Inr ps \<Rightarrow> Inr (StrV p # ps)))"

text \<open>
  \<^verbatim>\<open>transform_data(df, table_name)\<close>: the eight stages in the order of the source, then the
  \<^verbatim>\<open>data\<close> and \<^verbatim>\<open>tag\<close> columns, a \<^verbatim>\<open>date_time\<close> column holding
  \<^verbatim>\<open>pd.to_datetime('now')\<close> (the argument \<open>now\<close>) unless the batch has one, and the
  projection on the three columns. \<open>Inl\<close> is an exception leaving the function.
  \<open>filter_stage\<close> is the batch as it leaves the fourth stage, \<open>stages\<close> as it leaves
  the eighth.
\<close>

definition add_metadata :: "timestamp \<Rightarrow> string \<Rightarrow> frame \<Rightarrow> cell list \<Rightarrow> frame" where
  "add_metadata now table_name df ps =
     (let df1 = set_column df ''data'' ps;
          df2 = set_column df1 ''tag'' (replicate (length (rows df1)) (StrV table_name))
      in if ''date_time'' \<notin> set (columns df2)
         then set_column df2 ''date_time'' (replicate (length (rows df2)) (TimeV now))
         else df2)"

definition stamp :: "timestamp \<Rightarrow> string \<Rightarrow> frame \<Rightarrow> cell list \<Rightarrow> frame" where
  "stamp now table_name df ps =
     select_columns (add_metadata now table_name df ps) [''data'', ''date_time'', ''tag'']"

definition filter_stage :: "pylib \<Rightarrow> frame \<Rightarrow> error + frame" where
  "filter_stage lib df =
     (case aggregate_data lib (normalize_data (clean_data df)) of
        Inl e \<Rightarrow> Inl e
      | Inr df3 \<Rightarrow> Inr (filter_data df3))"

definition stages :: "pylib \<Rightarrow> frame \<Rightarrow> error + frame" where
  "stages lib df =
     (case filter_stage lib df of
        Inl e \<Rightarrow> Inl e
      | Inr df4 \<Rightarrow>
          (case convert_data_types lib df4 of
             Inl e \<Rightarrow> Inl e
           | Inr df5 \<Rightarrow> validate_data (map_fields (remove_duplicates df5))))"

definition transform_data :: "pylib \<Rightarrow> timestamp \<Rightarrow> frame \<Rightarrow> string \<Rightarrow> error + frame" where
  "transform_data lib now df table_name =
     (case stages lib df of
        Inl e \<Rightarrow> Inl e
      | Inr df8 \<Rightarrow>
          (case payloads lib df8 (rows df8) of
             Inl e \<Rightarrow> Inl e
           | Inr ps \<Rightarrow> Inr (stamp now table_name df8 ps)))"


section \<open>The retry wrapper of \<^verbatim>\<open>utils/retry.py\<close>\<close>

text \<open>
  The wrapped function runs in some state \<open>'s\<close> and either returns a value or raises
  (\<open>Inl\<close> with the text of the exception). What the wrapper does besides calling it is
  recorded as a list of events: each call, each \<^verbatim>\<open>logging.error\<close> line (function name,
  exception text, attempt number, \<^verbatim>\<open>MAX_RETRIES\<close>), each \<^verbatim>\<open>time.sleep\<close>, and the
  \<^verbatim>\<open>logging.critical\<close> line.
\<close>

definition MAX_RETRIES :: nat where
  "MAX_RETRIES = 3"

definition RETRY_DELAY :: nat where
  "RETRY_DELAY = 5"

datatype event =
    Call string
  | LogError string string nat nat
  | Sleep nat
  | LogCritical string nat

function retry_loop ::
  "string \<Rightarrow> ('s \<Rightarrow> (string + 'a) \<times> 's) \<Rightarrow> nat \<Rightarrow> 's \<Rightarrow> event list \<Rightarrow> (error + 'a) \<times> 's \<times> event list"
where
  "retry_loop name func retries s tr =
     (if retries < MAX_RETRIES
      then (case func s of
              (Inr v, s') \<Rightarrow> (Inr v, s', tr @ [Call name])
            | (Inl e, s') \<Rightarrow>
                retry_loop name func (retries + 1) s'
                  (tr @ [Call name, LogError name e (retries + 1) MAX_RETRIES, Sleep RETRY_DELAY]))
      else (Inl (Exception (''Function '' @ name @ '' failed after '' @ show_nat MAX_RETRIES @ '' attempts.'')),
            s, tr @ [LogCritical name MAX_RETRIES]))"
  by pat_completeness auto
termination
  by (relation "measure (\<lambda>(name, func, retries, s, tr). MAX_RETRIES - retries)") auto

declare retry_loop.simps [simp del]

definition retry_on_failure ::
  "string \<Rightarrow> ('s \<Rightarrow> (string + 'a) \<times> 's) \<Rightarrow> 's \<Rightarrow> (error + 'a) \<times> 's \<times> event list"
where
  "retry_on_failure name func s = retry_loop name func 0 s []"

section \<open>Source, sink and the orchestrator\<close>

text \<open>
  The world of a run: the tables of the source schema (label list and rows, the cells as
  they arrive in the DataFrame), the rows of the sink table \<^verbatim>\<open>grupox\<close>, whether the
  source connection and the sink client are open, how many of the next connection attempts
  fail on each side, how often \<^verbatim>\<open>transform_data\<close> has been called (the wall clock is a
  function of that count), and the log of the retry wrapper. SQL text is not modelled: a
  statement is its effect on these fields.
\<close>

record world =
  src_tables :: "(string \<times> string list \<times> cell list list) list"
  sink :: "cell list list"
  conn_open :: bool
  client_open :: bool
  src_down :: nat
  sink_down :: nat
  ticks :: nat
  log :: "event list"

definition open_source :: "world \<Rightarrow> (string + unit) \<times> world" where
  "open_source w =
     (if 0 < src_down w then (Inl ''OperationalError'', w\<lparr>src_down := src_down w - 1\<rparr>)
      else (Inr (), w\<lparr>conn_open := True\<rparr>))"

definition open_sink :: "world \<Rightarrow> (string + unit) \<times> world" where
  "open_sink w =
     (if 0 < sink_down w then (Inl ''OperationalError'', w\<lparr>sink_down := sink_down w - 1\<rparr>)
      else (Inr (), w\<lparr>client_open := True\<rparr>))"

definition connect_to_supabase :: "world \<Rightarrow> (error + unit) \<times> world" where
  "connect_to_supabase w =
     (case retry_on_failure ''connect_to_supabase'' open_source w of
        (res, w', tr) \<Rightarrow> (res, w'\<lparr>log := log w' @ tr\<rparr>))"

definition connect_to_clickhouse :: "world \<Rightarrow> (error + unit) \<times> world" where
  "connect_to_clickhouse w =
     (case retry_on_failure ''connect_to_clickhouse'' open_sink w of
        (res, w', tr) \<Rightarrow> (res, w'\<lparr>log := log w' @ tr\<rparr>))"

definition list_supabase_tables :: "world \<Rightarrow> string list" where
  "list_supabase_tables w = map fst (src_tables w)"

text \<open>
  \<^verbatim>\<open>extract_data_from_supabase\<close>: \<^verbatim>\<open>fetchmany(BATCH_SIZE)\<close> until a fetch returns no
  row; every fetch becomes one batch.
\<close>

function fetch_batches :: "nat \<Rightarrow> cell list list \<Rightarrow> cell list list list" where
  "fetch_batches n rs = (if take n rs = [] then [] else take n rs # fetch_batches n (drop n rs))"
  by pat_completeness auto
termination
  by (relation "measure (\<lambda>(n, rs). length rs)") auto

declare fetch_batches.simps [simp del]

definition extract_data_from_supabase :: "nat \<Rightarrow> world \<Rightarrow> string \<Rightarrow> error + frame list" where
  "extract_data_from_supabase batch_size w table_name =
     (case map_of (src_tables w) table_name of
        None \<Rightarrow> Inl QueryError
      | Some (cols, rs) \<Rightarrow> Inr (map (\<lambda>b. \<lparr>columns = cols, rows = b\<rparr>) (fetch_batches batch_size rs)))"

text \<open>
  \<^verbatim>\<open>check_existing_records\<close>: \<^verbatim>\<open>SELECT COUNT(*) FROM grupox WHERE tag = '{tag}'\<close>,
  then \<^verbatim>\<open>result > 0\<close>. The tag is the third field of a sink row.
\<close>

definition tag_of :: "cell list \<Rightarrow> cell" where
  "tag_of r = cell_of [''data'', ''date_time'', ''tag''] r ''tag''"

definition count_tag :: "world \<Rightarrow> string \<Rightarrow> nat" where
  "count_tag w tag = length (filter (\<lambda>r. tag_of r = StrV tag) (sink w))"

definition check_existing_records :: "world \<Rightarrow> string \<Rightarrow> bool" where
  "check_existing_records w tag \<longleftrightarrow> 0 < count_tag w tag"

text \<open>
  \<^verbatim>\<open>load_data_to_ClickHouse\<close>: one \<^verbatim>\<open>INSERT\<close> with a tuple per row of the batch; the
  unpacking \<^verbatim>\<open>(data, date_time, tag)\<close> needs exactly three fields. With no row the
  statement has an empty \<^verbatim>\<open>VALUES\<close> list and inserts nothing.
\<close>

definition load_data_to_ClickHouse :: "world \<Rightarrow> frame \<Rightarrow> error + world" where
  "load_data_to_ClickHouse w df =
     (if list_all (\<lambda>r. length r = 3) (rows df) then Inr (w\<lparr>sink := sink w @ rows df\<rparr>)
      else Inl ValueError_unpack)"


text \<open>
  \<^verbatim>\<open>etl_process\<close>. Both connections are opened before the \<^verbatim>\<open>try\<close>; the
  \<^verbatim>\<open>finally\<close> block is \<^verbatim>\<open>conn.close()\<close>. The call written
  \<^verbatim>\<open>load_data_to_clickhouse\<close> is bound to the function that \<^verbatim>\<open>clickhouse_utils.py\<close>
  defines, \<^verbatim>\<open>load_data_to_ClickHouse\<close>. The batches of a table are computed from the
  source when the table is reached; the n-th call of \<^verbatim>\<open>transform_data\<close> of the run
  reads the wall clock as \<open>clock n\<close>.
\<close>

definition ensure_clickhouse_table :: "world \<Rightarrow> world" where
  "ensure_clickhouse_table w = w"

fun process_batches ::
  "pylib \<Rightarrow> (nat \<Rightarrow> timestamp) \<Rightarrow> string \<Rightarrow> frame list \<Rightarrow> world \<Rightarrow> (error + unit) \<times> world"
where
  "process_batches lib clock table_name [] w = (Inr (), w)"
| "process_batches lib clock table_name (batch_df # rest) w =
     (case transform_data lib (clock (ticks w)) batch_df table_name of
        Inl e \<Rightarrow> (Inl e, w\<lparr>ticks := ticks w + 1\<rparr>)
      | Inr transformed_df \<Rightarrow>
          (case load_data_to_ClickHouse (w\<lparr>ticks := ticks w + 1\<rparr>) (remove_duplicates transformed_df) of
             Inl e \<Rightarrow> (Inl e, w\<lparr>ticks := ticks w + 1\<rparr>)
           | Inr w' \<Rightarrow> process_batches lib clock table_name rest w'))"

fun process_tables ::
  "pylib \<Rightarrow> (nat \<Rightarrow> timestamp) \<Rightarrow> nat \<Rightarrow> string list \<Rightarrow> world \<Rightarrow> (error + unit) \<times> world"
where
  "process_tables lib clock batch_size [] w = (Inr (), w)"
| "process_tables lib clock batch_size (table_name # rest) w =
     (if check_existing_records w table_name
      then process_tables lib clock batch_size rest w
      else (case extract_data_from_supabase batch_size w table_name of
              Inl e \<Rightarrow> (Inl e, w)
            | Inr batches \<Rightarrow>
                (case process_batches lib clock table_name batches w of
                   (Inl e, w') \<Rightarrow> (Inl e, w')
                 | (Inr u, w') \<Rightarrow> process_tables lib clock batch_size rest w')))"

definition etl_process ::
  "pylib \<Rightarrow> (nat \<Rightarrow> timestamp) \<Rightarrow> nat \<Rightarrow> world \<Rightarrow> (error + unit) \<times> world"
where
  "etl_process lib clock batch_size w =
     (case connect_to_supabase w of
        (Inl e, w1) \<Rightarrow> (Inl e, w1)
      | (Inr conn, w1) \<Rightarrow>
          (case connect_to_clickhouse w1 of
             (Inl e, w2) \<Rightarrow> (Inl e, w2)
           | (Inr client, w2) \<Rightarrow>
               (case process_tables lib clock batch_size
                       (list_supabase_tables (ensure_clickhouse_table w2)) (ensure_clickhouse_table w2) of
                  (res, w3) \<Rightarrow> (res, w3\<lparr>conn_open := False\<rparr>))))"

section \<open>Batches as objects\<close>

text \<open>
  A DataFrame is an object, and a stage can change the object it is given. The store holds
  the objects; a reference is an index into it. \<^verbatim>\<open>inplace=True\<close> and
  \<^verbatim>\<open>df[col] = ...\<close> update the object behind the reference and the stage returns that
  reference; \<^verbatim>\<open>df = df.applymap(...)\<close>, \<^verbatim>\<open>df = df[mask]\<close>,
  \<^verbatim>\<open>df = df.groupby(...)\<close> and \<^verbatim>\<open>df = df[[...]]\<close> bind the local name to a new
  object, which is appended to the store. What each object holds is given by the functions
  above.
\<close>

type_synonym store = "frame list"

definition in_place :: "(frame \<Rightarrow> frame) \<Rightarrow> store \<Rightarrow> nat \<Rightarrow> store \<times> nat" where
  "in_place f st r = (st[r := f (st ! r)], r)"

definition fresh :: "frame \<Rightarrow> store \<Rightarrow> store \<times> nat" where
  "fresh df st = (st @ [df], length st)"

definition clean_data_obj :: "store \<Rightarrow> nat \<Rightarrow> store \<times> nat" where
  "clean_data_obj st r = in_place clean_data st r"

definition normalize_data_obj :: "store \<Rightarrow> nat \<Rightarrow> store \<times> nat" where
  "normalize_data_obj st r = fresh (normalize_data (st ! r)) st"

definition aggregate_data_obj :: "pylib \<Rightarrow> store \<Rightarrow> nat \<Rightarrow> error + store \<times> nat" where
  "aggregate_data_obj lib st r =
     (if ''category'' \<in> set (columns (st ! r)) \<and> ''amount'' \<in> set (columns (st ! r))
      then (case aggregate_data lib (st ! r) of Inl e \<Rightarrow> Inl e | Inr df \<Rightarrow> Inr (fresh df st))
      else Inr (st, r))"

definition filter_data_obj :: "store \<Rightarrow> nat \<Rightarrow> store \<times> nat" where
  "filter_data_obj st r =
     (if ''status'' \<in> set (columns (st ! r)) then fresh (filter_data (st ! r)) st else (st, r))"

definition convert_data_types_obj :: "pylib \<Rightarrow> store \<Rightarrow> nat \<Rightarrow> error option \<times> store \<times> nat" where
  "convert_data_types_obj lib st r =
     (case convert_in_place lib (st ! r) of (res, df) \<Rightarrow> (res, st[r := df], r))"

definition remove_duplicates_obj :: "store \<Rightarrow> nat \<Rightarrow> store \<times> nat" where
  "remove_duplicates_obj st r = in_place remove_duplicates st r"

definition map_fields_obj :: "store \<Rightarrow> nat \<Rightarrow> store \<times> nat" where
  "map_fields_obj st r = in_place map_fields st r"

definition validate_data_obj :: "store \<Rightarrow> nat \<Rightarrow> error + store \<times> nat" where
  "validate_data_obj st r =
     (if ''amount'' \<in> set (columns (st ! r))
      then (case validate_data (st ! r) of Inl e \<Rightarrow> Inl e | Inr df \<Rightarrow> Inr (fresh df st))
      else Inr (st, r))"

text \<open>
  \<^verbatim>\<open>transform_data\<close> on objects. When an exception leaves the function the caller is
  left with the store as it is at that point.
\<close>

definition transform_data_obj ::
  "pylib \<Rightarrow> timestamp \<Rightarrow> store \<Rightarrow> nat \<Rightarrow> string \<Rightarrow> (error + nat) \<times> store"
where
  "transform_data_obj lib now st r table_name =
     (case clean_data_obj st r of (st1, r1) \<Rightarrow>
      case normalize_data_obj st1 r1 of (st2, r2) \<Rightarrow>
      case aggregate_data_obj lib st2 r2 of
        Inl e \<Rightarrow> (Inl e, st2)
      | Inr (st3, r3) \<Rightarrow>
      case filter_data_obj st3 r3 of (st4, r4) \<Rightarrow>
      case convert_data_types_obj lib st4 r4 of
        (Some e, st5, r5) \<Rightarrow> (Inl e, st5)
      | (None, st5, r5) \<Rightarrow>
      case remove_duplicates_obj st5 r5 of (st6, r6) \<Rightarrow>
      case map_fields_obj st6 r6 of (st7, r7) \<Rightarrow>
      case validate_data_obj st7 r7 of
        Inl e \<Rightarrow> (Inl e, st7)
      | Inr (st8, r8) \<Rightarrow>
      case payloads lib (st8 ! r8) (rows (st8 ! r8)) of
        Inl e \<Rightarrow> (Inl e, st8)
      | Inr ps \<Rightarrow>
      case in_place (\<lambda>df. add_metadata now table_name df ps) st8 r8 of (st9, r9) \<Rightarrow>
      case fresh (select_columns (st9 ! r9) [''data'', ''date_time'', ''tag'']) st9 of
        (st10, r10) \<Rightarrow> (Inr r10, st10))"

section \<open>Notions used in the statements\<close>

text \<open>A batch without missing values.\<close>

definition no_nulls :: "frame \<Rightarrow> bool" where
  "no_nulls df \<longleftrightarrow> list_all (list_all (\<lambda>v. \<not> isnull v)) (rows df)"

text \<open>
  The amount of a cell as a number, and the range \<open>0 \<le> amount \<le> 1,000,000\<close> of the
  validation rule.
\<close>

fun amount_value :: "cell \<Rightarrow> rat option" where
  "amount_value (IntV i) = Some (of_int i)"
| "amount_value (FltV (Fin q)) = Some q"
| "amount_value _ = None"

definition in_range :: "cell \<Rightarrow> bool" where
  "in_range v = (case amount_value v of Some q \<Rightarrow> 0 \<le> q \<and> q \<le> 1000000 | None \<Rightarrow> False)"

text \<open>
  The doubles nearest to \<open>-0.01\<close> and to \<open>1000000.01\<close>, as the rationals they denote.
\<close>

definition minus_one_cent :: cell where
  "minus_one_cent = FltV (Fin (- (5764607523034235 / 576460752303423488)))"

definition million_and_one_cent :: cell where
  "million_and_one_cent = FltV (Fin (4294967338949673 / 4294967296))"

text \<open>
  A library for concrete runs: it reads no string as a number and no cell as a date, adds
  finite floats exactly and prints every finite float as \<^verbatim>\<open>0.0\<close>.
\<close>

definition plain_lib :: pylib where
  "plain_lib =
     \<lparr>parse_numeric = (\<lambda>s. None),
      parse_datetime = (\<lambda>v. None),
      float_add = (\<lambda>a b. case (a, b) of (Fin x, Fin y) \<Rightarrow> Fin (x + y) | _ \<Rightarrow> NaN),
      float_of_int = (\<lambda>i. Fin (of_int i)),
      float_repr = (\<lambda>q. ''0.0'')\<rparr>"

text \<open>The two-row batch of the table \<^verbatim>\<open>orders\<close> and the payload expected for it.\<close>

definition orders_batch :: frame where
  "orders_batch =
     \<lparr>columns = [''status'', ''amount'', ''category'', ''date_created''],
      rows = [[StrV ''active'', IntV 500, StrV ''a'', StrV ''2024-01-05''],
              [StrV ''inactive'', IntV 10, StrV ''a'', StrV ''2024-01-06'']]\<rparr>"

definition orders_payload :: string where
  "orders_payload =
     [CHR ''{'', CHR 0x22] @ ''category'' @ [CHR 0x22] @ '': '' @ [CHR 0x22, CHR ''a'', CHR 0x22] @ '', '' @
     [CHR 0x22] @ ''amount'' @ [CHR 0x22] @ '': 510}''"

definition orders_aggregate :: frame where
  "orders_aggregate = \<lparr>columns = [''category'', ''amount''], rows = [[StrV ''a'', IntV 510]]\<rparr>"

text \<open>A one-row batch of a table with a date column, and a world before a run.\<close>

definition events_batch :: frame where
  "events_batch = \<lparr>columns = [''id'', ''created_date''], rows = [[IntV 1, StrV ''2024-01-05'']]\<rparr>"

definition start_world :: "(string \<times> string list \<times> cell list list) list \<Rightarrow> world" where
  "start_world tabs =
     \<lparr>src_tables = tabs, sink = [], conn_open = False, client_open = False,
      src_down = 0, sink_down = 0, ticks = 0, log = []\<rparr>"

text \<open>
  While a function runs on a store that started as \<open>base\<close>: the object \<open>r\<close> it works
  on was created after \<open>base\<close>, holds \<open>v\<close>, and the objects of \<open>base\<close> are as they were.
\<close>

definition tracks :: "store \<Rightarrow> store \<Rightarrow> nat \<Rightarrow> frame \<Rightarrow> bool" where
  "tracks base st r v \<longleftrightarrow>
     length base \<le> r \<and> r < length st \<and> st ! r = v \<and> take (length base) st = base"

text \<open>A batch with a missing value in its second row.\<close>

definition nulls_batch :: frame where
  "nulls_batch = \<lparr>columns = [''id'', ''name''], rows = [[IntV 1, StrV ''x''], [IntV 2, NoneV]]\<rparr>"

text \<open>
  Every capitalisation of a lower-case ASCII word: each letter as it is or in upper case.
  A status cell is a capitalisation of \<^verbatim>\<open>active\<close> when it is one of these 64 strings.
\<close>

definition upper_char :: "char \<Rightarrow> char" where
  "upper_char c = (let n = (of_char c :: nat) in if 97 \<le> n \<and> n \<le> 122 then char_of (n - 32) else c)"

fun capitalizations :: "string \<Rightarrow> string list" where
  "capitalizations [] = [[]]"
| "capitalizations (c # cs) =
     concat (map (\<lambda>x. map (\<lambda>t. x # t) (capitalizations cs)) [c, upper_char c])"

definition ascii_lower :: "char \<Rightarrow> bool" where
  "ascii_lower c \<longleftrightarrow> 97 \<le> (of_char c :: nat) \<and> (of_char c :: nat) \<le> 122"

fun active_variant :: "cell \<Rightarrow> bool" where
  "active_variant (StrV s) = (s \<in> set (capitalizations ''active''))"
| "active_variant _ = False"

text \<open>
  The rows that the status filter is claimed to keep: the normalised rows of the cleaned
  records whose source status is a capitalisation of \<^verbatim>\<open>active\<close>.
\<close>

definition active_rows :: "frame \<Rightarrow> cell list list" where
  "active_rows df =
     map snd (filter (\<lambda>(r, r'). active_variant (cell_of (columns df) r ''status''))
                (zip (rows (clean_data df)) (rows (normalize_data (clean_data df)))))"

text \<open>A cell after the datetime formatting of \<^verbatim>\<open>normalize_data\<close>: as it was, or formatted.\<close>

definition fmt :: "cell \<Rightarrow> cell \<Rightarrow> bool" where
  "fmt x y \<longleftrightarrow> y = x \<or> y = strftime_cell x"

text \<open>A batch with a status column and neither a category nor an amount column.\<close>

definition accounts_batch :: frame where
  "accounts_batch =
     \<lparr>columns = [''id'', ''status''],
      rows = [[IntV 1, StrV ''Active''], [IntV 2, StrV ''ACTIVE''], [IntV 3, StrV ''inactive''],
              [IntV 4, StrV ''active''], [IntV 5, NoneV], [IntV 6, StrV ''Actve'']]\<rparr>"
















text \<open>A batch whose amount is a text that is no number.\<close>

definition text_amount_batch :: frame where
  "text_amount_batch = \<lparr>columns = [''id'', ''amount''], rows = [[IntV 1, StrV ''abc'']]\<rparr>"











section \<open>Properties\<close>

subsection \<open>Cleaning and normalising\<close>

lemma clean_no_nulls: "no_nulls (clean_data df)"
  by (induction "rows df") (auto simp: no_nulls_def clean_data_def list_all_iff list_ex_iff)

lemma strftime_cell_notnull: "\<not> isnull v \<Longrightarrow> \<not> isnull (strftime_cell v)"
  by (cases v rule: strftime_cell.cases) auto

lemma lower_cell_notnull: "\<not> isnull v \<Longrightarrow> \<not> isnull (lower_cell v)"
  by (cases v rule: lower_cell.cases) auto

lemma cell_of_mem:
  assumes "(c, x) \<in> set (zip cols r)"
  shows "cell_of cols r c \<in> set r"
proof (cases "map_of (zip cols r) c")
  case None
  with assms show ?thesis by (force simp: map_of_eq_None_iff)
next
  case (Some v)
  then have "(c, v) \<in> set (zip cols r)" by (rule map_of_SomeD)
  then have "v \<in> set r" by (rule set_zip_rightD)
  with Some show ?thesis by (simp add: cell_of_def)
qed

lemma zip_map_same: "zip xs (map f xs) = map (\<lambda>x. (x, f x)) xs"
  by (induction xs) auto

lemma update_cell_notnull:
  assumes "list_all (\<lambda>v. \<not> isnull v) r"
  shows "list_all (\<lambda>v. \<not> isnull v) (update_cell cols c (strftime_cell (cell_of cols r c)) r)"
proof -
  have "\<not> isnull y" if "y \<in> set (update_cell cols c (strftime_cell (cell_of cols r c)) r)" for y
  proof -
    from that obtain k x where kx: "(k, x) \<in> set (zip cols r)"
      and y: "y = (if k = c then strftime_cell (cell_of cols r c) else x)"
      by (auto simp: update_cell_def)
    show ?thesis
    proof (cases "k = c")
      case True
      with kx have "cell_of cols r c \<in> set r" by (auto intro: cell_of_mem)
      with assms have "\<not> isnull (cell_of cols r c)" by (simp add: list_all_iff)
      with y True show ?thesis by (simp add: strftime_cell_notnull)
    next
      case False
      from kx have "x \<in> set r" by (rule set_zip_rightD)
      with assms y False show ?thesis by (simp add: list_all_iff)
    qed
  qed
  then show ?thesis by (simp add: list_all_iff)
qed

lemma format_datetime_column_keeps:
  assumes "c \<in> set (columns df)" "no_nulls df"
  shows "no_nulls (format_datetime_column df c) \<and>
         length (rows (format_datetime_column df c)) = length (rows df) \<and>
         columns (format_datetime_column df c) = columns df"
  using assms
  by (auto simp: format_datetime_column_def set_column_def column_def zip_map_same no_nulls_def
        list_all_iff update_cell_notnull[unfolded list_all_iff] comp_def)

lemma foldl_format_keeps:
  assumes "set cs \<subseteq> set (columns df)" "no_nulls df"
  shows "no_nulls (foldl format_datetime_column df cs) \<and>
         length (rows (foldl format_datetime_column df cs)) = length (rows df)"
  using assms
proof (induction cs arbitrary: df)
  case Nil
  then show ?case by simp
next
  case (Cons c cs)
  then have k: "no_nulls (format_datetime_column df c)"
    "length (rows (format_datetime_column df c)) = length (rows df)"
    "columns (format_datetime_column df c) = columns df"
    using format_datetime_column_keeps[of c df] by auto
  with Cons.prems have "set cs \<subseteq> set (columns (format_datetime_column df c))" by simp
  from Cons.IH[OF this k(1)] k(2) show ?case by simp
qed

lemma applymap_lower_keeps: "no_nulls df \<Longrightarrow> no_nulls (applymap lower_cell df)"
  by (auto simp: no_nulls_def applymap_def list_all_iff lower_cell_notnull)

text \<open>
  C8. For every batch, \<^verbatim>\<open>clean_data\<close> followed by \<^verbatim>\<open>normalize_data\<close> yields a batch
  without missing values that has as many rows as the output of \<^verbatim>\<open>clean_data\<close> alone.
\<close>

theorem clean_then_normalize:
  "no_nulls (normalize_data (clean_data df)) \<and>
   length (rows (normalize_data (clean_data df))) = length (rows (clean_data df))"
proof -
  let ?d = "applymap lower_cell (clean_data df)"
  have n: "no_nulls ?d" by (simp add: applymap_lower_keeps clean_no_nulls)
  have l: "length (rows ?d) = length (rows (clean_data df))" by (simp add: applymap_def)
  from foldl_format_keeps[of "columns ?d" ?d, OF _ n] l
  show ?thesis by (simp add: normalize_data_def Let_def)
qed

subsection \<open>The validation range\<close>

lemma between_in_range: "between v = in_range v"
proof (cases v)
  case (FltV f)
  then show ?thesis by (cases f) (auto simp: in_range_def)
qed (auto simp: in_range_def)

text \<open>
  On an \<^verbatim>\<open>amount\<close> column that holds only numbers and \<^verbatim>\<open>None\<close> or \<^verbatim>\<open>NaN\<close>,
  \<^verbatim>\<open>validate_data\<close> keeps exactly the rows whose amount lies in
  \<open>0 \<le> amount \<le> 1,000,000\<close>, both ends included: \<open>0\<close> and \<open>1,000,000\<close> pass the
  test, the doubles \<open>-0.01\<close> and \<open>1,000,000.01\<close> do not.
\<close>

lemma validate_numeric_amounts:
  assumes "''amount'' \<in> set (columns df)"
    and "list_all (\<lambda>v. \<not> is_str v \<and> \<not> is_datetime v) (column df ''amount'')"
  shows "validate_data df =
           Inr (df\<lparr>rows := filter (\<lambda>r. in_range (cell_of (columns df) r ''amount'')) (rows df)\<rparr>) \<and>
         between (IntV 0) \<and> between (IntV 1000000) \<and>
         \<not> between minus_one_cent \<and> \<not> between million_and_one_cent"
proof -
  from assms(2) have "\<not> list_ex (\<lambda>v. is_str v \<or> is_datetime v) (column df ''amount'')"
    by (auto simp: list_all_iff list_ex_iff)
  with assms(1) show ?thesis
    by (simp add: validate_data_def between_in_range minus_one_cent_def million_and_one_cent_def
        in_range_def)
qed

lemma validate_boundary_rows:
  "validate_data \<lparr>columns = [''id'', ''amount''],
       rows = [[IntV 1, IntV 0], [IntV 2, IntV 1000000], [IntV 3, minus_one_cent],
               [IntV 4, million_and_one_cent], [IntV 5, FltV NaN]]\<rparr> =
     Inr \<lparr>columns = [''id'', ''amount''], rows = [[IntV 1, IntV 0], [IntV 2, IntV 1000000]]\<rparr>"
  using validate_numeric_amounts[of "\<lparr>columns = [''id'', ''amount''],
       rows = [[IntV 1, IntV 0], [IntV 2, IntV 1000000], [IntV 3, minus_one_cent],
               [IntV 4, million_and_one_cent], [IntV 5, FltV NaN]]\<rparr>"]
  by (simp add: column_def cell_of_def in_range_def minus_one_cent_def million_and_one_cent_def)

text \<open>
  C6 on the code: the validate stage does not hold for every batch with an \<^verbatim>\<open>amount\<close>
  column. \<^verbatim>\<open>convert_data_types\<close> catches the \<^verbatim>\<open>ValueError\<close> of
  \<^verbatim>\<open>pd.to_numeric\<close> and leaves a text amount as it is; \<^verbatim>\<open>between\<close> then compares
  the text with an integer, \<^verbatim>\<open>TypeError\<close> is raised, nothing catches it, and
  \<^verbatim>\<open>transform_data\<close> raises instead of dropping the record. So it is for every library
  that does not read the text \<^verbatim>\<open>abc\<close> as a number.
\<close>

theorem text_amount_raises:
  assumes "parse_numeric lib ''abc'' = None"
  shows "convert_data_types lib text_amount_batch = Inr text_amount_batch \<and>
         validate_data text_amount_batch = Inl TypeError \<and>
         transform_data lib now text_amount_batch ''payments'' = Inl TypeError"
proof -
  have fs: "filter_stage lib text_amount_batch = Inr text_amount_batch"
    by (simp add: filter_stage_def text_amount_batch_def clean_data_def normalize_data_def applymap_def
      format_datetime_column_def column_def cell_of_def dtype_of_def lower_def lower_char_def
      aggregate_data_def filter_data_def Let_def)
  have cv: "convert_data_types lib text_amount_batch = Inr text_amount_batch"
    using assms
    by (simp add: text_amount_batch_def convert_data_types_def convert_in_place_def
        column_def cell_of_def dtype_of_def to_numeric_def convert_date_column_def)
  have dd: "map_fields (remove_duplicates text_amount_batch) = text_amount_batch"
    by (simp add: text_amount_batch_def remove_duplicates_def map_fields_def)
  have vd: "validate_data text_amount_batch = Inl TypeError"
    by (simp add: text_amount_batch_def validate_data_def column_def cell_of_def)
  have "stages lib text_amount_batch = Inl TypeError"
    by (simp add: stages_def fs cv dd vd)
  then show ?thesis using cv vd by (simp add: transform_data_def)
qed

theorem text_amount_raises_witness:
  "transform_data plain_lib (Timestamp 2024 11 4 12 0 0) text_amount_batch ''payments'' = Inl TypeError"
  using text_amount_raises[of plain_lib "Timestamp 2024 11 4 12 0 0"]
  by (simp add: plain_lib_def)

subsection \<open>Retry exhaustion\<close>

text \<open>
  C4. A wrapped operation that fails on every invocation is called exactly three times;
  each failure is logged with its attempt number out of \<^verbatim>\<open>MAX_RETRIES\<close> and followed
  by a sleep of \<^verbatim>\<open>RETRY_DELAY = 5\<close> (so a sleep separates successive attempts, and one
  more follows the last failure); then the critical line is logged and one exception naming
  the operation and the attempt count is raised.
\<close>

theorem retry_exhaustion:
  assumes "\<forall>s. func s = (Inl (err s), nxt s)"
  shows "retry_on_failure name func s =
           (Inl (Exception (''Function '' @ name @ '' failed after 3 attempts.'')),
            nxt (nxt (nxt s)),
            [Call name, LogError name (err s) 1 3, Sleep 5,
             Call name, LogError name (err (nxt s)) 2 3, Sleep 5,
             Call name, LogError name (err (nxt (nxt s))) 3 3, Sleep 5,
             LogCritical name 3])"
proof -
  have three: "show_nat 3 = ''3''" by code_simp
  show ?thesis
    using assms
    by (simp add: retry_on_failure_def retry_loop.simps[of name func] MAX_RETRIES_def
        RETRY_DELAY_def three)
qed

theorem retry_exhaustion_witness:
  "retry_on_failure ''connect'' (\<lambda>n::nat. (Inl ''down'' :: string + unit, n + 1)) 0 =
     (Inl (Exception ''Function connect failed after 3 attempts.''), 3,
      [Call ''connect'', LogError ''connect'' ''down'' 1 3, Sleep 5,
       Call ''connect'', LogError ''connect'' ''down'' 2 3, Sleep 5,
       Call ''connect'', LogError ''connect'' ''down'' 3 3, Sleep 5,
       LogCritical ''connect'' 3])"
  using retry_exhaustion[of "\<lambda>n::nat. (Inl ''down'' :: string + unit, n + 1)"
      "\<lambda>n. ''down''" "\<lambda>n. n + 1" "''connect''" 0]
  by simp

subsection \<open>The two-row batch of \<^verbatim>\<open>orders\<close>\<close>

lemma show_510: "show_int 510 = ''510''"
  by code_simp

lemma orders_aggregated:
  "aggregate_data lib (normalize_data (clean_data orders_batch)) = Inr orders_aggregate"
  by (simp add: orders_batch_def orders_aggregate_def clean_data_def normalize_data_def
      applymap_def format_datetime_column_def column_def cell_of_def dtype_of_def lower_def
      lower_char_def aggregate_data_def sort_keys_def group_sum_def wrap64_def Let_def)

lemma orders_filter_noop: "filter_data orders_aggregate = orders_aggregate"
  by (simp add: filter_data_def orders_aggregate_def)

lemma orders_filter_stage: "filter_stage lib orders_batch = Inr orders_aggregate"
  by (simp add: filter_stage_def orders_aggregated orders_filter_noop)

lemma orders_stages:
  assumes "parse_numeric lib ''a'' = None"
  shows "stages lib orders_batch = Inr orders_aggregate"
  using assms
  by (simp add: stages_def orders_filter_stage orders_aggregate_def convert_data_types_def
      convert_in_place_def column_def cell_of_def dtype_of_def to_numeric_def
      convert_date_column_def remove_duplicates_def map_fields_def validate_data_def)

text \<open>
  C1. With a \<^verbatim>\<open>pd.to_numeric\<close> that does not read the text \<^verbatim>\<open>a\<close> as a number,
  \<^verbatim>\<open>transform_data\<close> of the two-row batch returns exactly one record: its payload is
  the serialised aggregate of category \<^verbatim>\<open>a\<close> with amount 510, its \<^verbatim>\<open>date_time\<close>
  is the current time, its tag is \<^verbatim>\<open>orders\<close>. Aggregation has merged both rows and
  dropped the \<^verbatim>\<open>status\<close> column, so the filter changes nothing.
\<close>

theorem transform_orders:
  assumes "parse_numeric lib ''a'' = None"
  shows "aggregate_data lib (normalize_data (clean_data orders_batch)) = Inr orders_aggregate \<and>
         filter_data orders_aggregate = orders_aggregate \<and>
         transform_data lib now orders_batch ''orders'' =
           Inr \<lparr>columns = [''data'', ''date_time'', ''tag''],
                rows = [[StrV orders_payload, TimeV now, StrV ''orders'']]\<rparr>"
proof -
  have "transform_data lib now orders_batch ''orders'' =
           Inr \<lparr>columns = [''data'', ''date_time'', ''tag''],
                rows = [[StrV orders_payload, TimeV now, StrV ''orders'']]\<rparr>"
    by (simp add: transform_data_def orders_stages[OF assms]
      orders_aggregate_def payload_def row_series_def upcasts_def
      column_def cell_of_def dtype_of_def to_dict_def json_dumps_def json_string_def
      json_escape_char_def show_510 escape_quotes_def stamp_def add_metadata_def set_column_def
      select_columns_def update_cell_def orders_payload_def Let_def)
  with orders_aggregated[of lib] orders_filter_noop show ?thesis by blast
qed

theorem transform_orders_witness:
  "transform_data plain_lib (Timestamp 2024 11 4 12 0 0) orders_batch ''orders'' =
     Inr \<lparr>columns = [''data'', ''date_time'', ''tag''],
          rows = [[StrV orders_payload, TimeV (Timestamp 2024 11 4 12 0 0), StrV ''orders'']]\<rparr>"
  using transform_orders[of plain_lib "Timestamp 2024 11 4 12 0 0"]
  by (simp add: plain_lib_def)

subsection \<open>Timestamps and \<^verbatim>\<open>json.dumps\<close>\<close>

lemma to_datetime_cell_cases:
  "(\<exists>t. to_datetime_cell lib v = TimeV t) \<or> to_datetime_cell lib v = NaT"
  by (cases "(lib, v)" rule: to_datetime_cell.cases) (auto split: option.splits)

lemma json_value_datetime: "is_datetime v \<Longrightarrow> json_value lib v = Inl TypeError"
  by (cases v) auto

lemma to_datetime_is_datetime: "is_datetime (to_datetime_cell lib v)"
  using to_datetime_cell_cases[of lib v] by auto

lemma events_stages:
  "\<exists>d. stages lib events_batch =
         Inr \<lparr>columns = [''id'', ''created_date''], rows = [[IntV 1, d]]\<rparr> \<and> is_datetime d"
proof -
  have fs: "filter_stage lib events_batch =
      Inr \<lparr>columns = [''id'', ''created_date''], rows = [[IntV 1, StrV ''2024-01-05'']]\<rparr>"
    by (simp add: filter_stage_def events_batch_def clean_data_def normalize_data_def applymap_def
      format_datetime_column_def column_def cell_of_def dtype_of_def lower_def lower_char_def
      aggregate_data_def filter_data_def Let_def)
  show ?thesis
    by (cases "parse_numeric lib ''2024-01-05''")
      (auto simp: stages_def fs convert_data_types_def convert_in_place_def
        column_def cell_of_def dtype_of_def to_numeric_def convert_date_column_def
        remove_duplicates_def map_fields_def validate_data_def set_column_def update_cell_def
        to_datetime_is_datetime to_float_def
        simp del: to_datetime_cell.simps split: num.splits)
qed

text \<open>
  C7 on the code: a record that holds a timestamp has no payload. \<^verbatim>\<open>json.dumps\<close> raises
  \<^verbatim>\<open>TypeError\<close> on it, and since the type conversion turns every column whose label
  contains \<^verbatim>\<open>date\<close> into timestamps, \<^verbatim>\<open>transform_data\<close> raises on the one-row
  batch below whatever the library reads from its cells.
\<close>

theorem timestamp_not_serialisable:
  "json_dumps lib [(''id'', IntV 1), (''created_date'', TimeV t)] = Inl TypeError \<and>
   transform_data lib now events_batch ''events'' = Inl TypeError"
proof -
  define a where "a = IntV 1"
  obtain d where st: "stages lib events_batch =
      Inr \<lparr>columns = [''id'', ''created_date''], rows = [[a, d]]\<rparr>"
    and d: "is_datetime d" using events_stages a_def by blast
  have "\<not> upcasts \<lparr>columns = [''id'', ''created_date''], rows = [[a, d]]\<rparr>"
    using d by (cases d) (auto simp: upcasts_def column_def cell_of_def dtype_of_def)
  then have "payload lib \<lparr>columns = [''id'', ''created_date''], rows = [[a, d]]\<rparr> [a, d] = Inl TypeError"
    using d by (auto simp: payload_def row_series_def to_dict_def json_dumps_def json_value_datetime
        a_def split: sum.splits)
  then show ?thesis
    by (simp add: transform_data_def st json_dumps_def)
qed

subsection \<open>The connections at the end of a run\<close>

lemma process_batches_flags:
  "client_open (snd (process_batches lib clock t bs w)) = client_open w \<and>
   conn_open (snd (process_batches lib clock t bs w)) = conn_open w"
  by (induction bs arbitrary: w)
     (auto simp: load_data_to_ClickHouse_def split: sum.splits prod.splits)

lemma process_tables_flags:
  "client_open (snd (process_tables lib clock n ts w)) = client_open w \<and>
   conn_open (snd (process_tables lib clock n ts w)) = conn_open w"
proof (induction ts arbitrary: w)
  case Nil
  then show ?case by simp
next
  case (Cons t ts)
  show ?case
  proof (cases "check_existing_records w t")
    case True
    with Cons show ?thesis by simp
  next
    case False
    show ?thesis
    proof (cases "extract_data_from_supabase n w t")
      case (Inl e)
      with False show ?thesis by simp
    next
      case (Inr bs)
      obtain res w' where pb: "process_batches lib clock t bs w = (res, w')" by force
      with process_batches_flags[of lib clock t bs w]
      have fl: "client_open w' = client_open w" "conn_open w' = conn_open w" by auto
      show ?thesis
        using False Inr pb fl Cons[of w'] by (cases res) auto
    qed
  qed
qed

text \<open>
  C3 on the code: whenever both connections are opened at the first attempt, the run ends,
  with or without an exception, with the source connection closed and the sink client
  still open. The \<^verbatim>\<open>finally\<close> block closes the source connection only.
\<close>

theorem sink_client_left_open:
  assumes "src_down w = 0 \<and> sink_down w = 0"
  shows "client_open (snd (etl_process lib clock n w)) \<and>
         \<not> conn_open (snd (etl_process lib clock n w))"
proof -
  define w2 where "w2 = w\<lparr>conn_open := True, client_open := True,
    log := log w @ [Call ''connect_to_supabase'', Call ''connect_to_clickhouse'']\<rparr>"
  obtain res w3 where pt: "process_tables lib clock n (list_supabase_tables w2) w2 = (res, w3)"
    by force
  have "etl_process lib clock n w = (res, w3\<lparr>conn_open := False\<rparr>)"
    using assms pt
    by (simp add: etl_process_def connect_to_supabase_def connect_to_clickhouse_def
      retry_on_failure_def retry_loop.simps[of _ _ 0] MAX_RETRIES_def open_source_def open_sink_def
      ensure_clickhouse_table_def w2_def)
  moreover have "client_open w3"
    using process_tables_flags[of lib clock n "list_supabase_tables w2" w2] pt
    by (simp add: w2_def)
  ultimately show ?thesis by simp
qed

theorem sink_client_left_open_witness:
  "client_open (snd (etl_process plain_lib (\<lambda>n. Timestamp 2024 11 4 12 0 n) 15000 (start_world []))) \<and>
   \<not> conn_open (snd (etl_process plain_lib (\<lambda>n. Timestamp 2024 11 4 12 0 n) 15000 (start_world [])))"
  using sink_client_left_open[of "start_world []" plain_lib "\<lambda>n. Timestamp 2024 11 4 12 0 n" 15000]
  by (simp add: start_world_def)

subsection \<open>Stages and the caller's batch object\<close>

lemma tracks_in_place:
  "tracks base st r v \<Longrightarrow> in_place f st r = (st', r') \<Longrightarrow> tracks base st' r' (f v)"
  by (auto simp: tracks_def in_place_def)

lemma tracks_fresh:
  "tracks base st r v \<Longrightarrow> fresh d st = (st', r') \<Longrightarrow> tracks base st' r' d"
  by (auto simp: tracks_def fresh_def)

lemma tracks_start:
  "fresh d base = (st', r') \<Longrightarrow> tracks base st' r' d"
  by (auto simp: tracks_def fresh_def)

lemma tracks_update: "tracks base st r v \<Longrightarrow> tracks base (st[r := d]) r d"
  by (auto simp: tracks_def)

lemma aggregate_obj_tracks:
  assumes "tracks base st r v"
  shows "case aggregate_data_obj lib st r of
           Inl e \<Rightarrow> aggregate_data lib v = Inl e
         | Inr (st', r') \<Rightarrow> (\<exists>v'. aggregate_data lib v = Inr v' \<and> tracks base st' r' v')"
proof -
  have v: "st ! r = v" using assms by (simp add: tracks_def)
  show ?thesis
  proof (cases "''category'' \<in> set (columns v) \<and> ''amount'' \<in> set (columns v)")
    case True
    then show ?thesis
      using tracks_fresh[OF assms] v
      by (auto simp: aggregate_data_obj_def split: sum.splits prod.splits)
  next
    case False
    then have "aggregate_data lib v = Inr v" by (auto simp: aggregate_data_def)
    with False show ?thesis using assms v by (auto simp: aggregate_data_obj_def)
  qed
qed

lemma filter_obj_tracks:
  assumes "tracks base st r v"
  shows "tracks base (fst (filter_data_obj st r)) (snd (filter_data_obj st r)) (filter_data v)"
proof -
  have v: "st ! r = v" using assms by (simp add: tracks_def)
  show ?thesis
  proof (cases "''status'' \<in> set (columns v)")
    case True
    then show ?thesis using tracks_fresh[OF assms] v
      by (cases "fresh (filter_data v) st") (auto simp: filter_data_obj_def)
  next
    case False
    then have "filter_data v = v" by (simp add: filter_data_def)
    with False show ?thesis using assms v by (simp add: filter_data_obj_def)
  qed
qed

lemma convert_obj_tracks:
  assumes "tracks base st r v"
  shows "case convert_data_types_obj lib st r of
           (Some e, st', r') \<Rightarrow> convert_data_types lib v = Inl e \<and> (\<exists>v'. tracks base st' r' v')
         | (None, st', r') \<Rightarrow> (\<exists>v'. convert_data_types lib v = Inr v' \<and> tracks base st' r' v')"
proof -
  have v: "st ! r = v" using assms by (simp add: tracks_def)
  obtain res d where c: "convert_in_place lib v = (res, d)" by force
  show ?thesis
    using c v tracks_update[OF assms, of d]
    by (cases res) (auto simp: convert_data_types_obj_def convert_data_types_def)
qed

lemma validate_obj_tracks:
  assumes "tracks base st r v"
  shows "case validate_data_obj st r of
           Inl e \<Rightarrow> validate_data v = Inl e
         | Inr (st', r') \<Rightarrow> (\<exists>v'. validate_data v = Inr v' \<and> tracks base st' r' v')"
proof -
  have v: "st ! r = v" using assms by (simp add: tracks_def)
  show ?thesis
  proof (cases "''amount'' \<in> set (columns v)")
    case True
    then show ?thesis
      using tracks_fresh[OF assms] v
      by (auto simp: validate_data_obj_def split: sum.splits prod.splits)
  next
    case False
    then have "validate_data v = Inr v" by (auto simp: validate_data_def)
    with False show ?thesis using assms v by (auto simp: validate_data_obj_def)
  qed
qed


lemma transform_obj_effect:
  assumes "r < length st"
  shows "case transform_data_obj lib now st r table_name of
           (res, st') \<Rightarrow>
             take (length st) st' = st[r := clean_data (st ! r)] \<and>
             (case res of
                Inl e \<Rightarrow> transform_data lib now (st ! r) table_name = Inl e
              | Inr r' \<Rightarrow> length st \<le> r' \<and> r' < length st' \<and>
                         transform_data lib now (st ! r) table_name = Inr (st' ! r'))"
proof -
  define base where "base = st[r := clean_data (st ! r)]"
  have lb: "length base = length st" and br: "base ! r = clean_data (st ! r)"
    using assms by (simp_all add: base_def)
  obtain st2 r2 where n: "normalize_data_obj base r = (st2, r2)" by force
  define v2 where "v2 = normalize_data (clean_data (st ! r))"
  have t2: "tracks base st2 r2 v2"
    using n br by (auto simp: normalize_data_obj_def v2_def intro: tracks_start)
  have keep: "take (length st) st' = st[r := clean_data (st ! r)]"
    if "tracks base st' r' v'" for st' r' v'
    using that lb by (simp add: tracks_def base_def)
  have c1: "clean_data_obj st r = (base, r)"
    by (simp add: clean_data_obj_def in_place_def base_def)
  show ?thesis
  proof (cases "aggregate_data_obj lib st2 r2")
    case (Inl e)
    with aggregate_obj_tracks[OF t2, of lib] have "aggregate_data lib v2 = Inl e" by simp
    then show ?thesis
      using Inl c1 n keep[OF t2]
      by (simp add: transform_data_obj_def transform_data_def stages_def filter_stage_def v2_def)
  next
    case (Inr p3)
    obtain st3 r3 where p3: "p3 = (st3, r3)" by force
    with Inr aggregate_obj_tracks[OF t2, of lib] obtain v3
      where a3: "aggregate_data lib v2 = Inr v3" and t3: "tracks base st3 r3 v3" by auto
    obtain st4 r4 where f4: "filter_data_obj st3 r3 = (st4, r4)" by force
    with filter_obj_tracks[OF t3] have t4: "tracks base st4 r4 (filter_data v3)" by simp
    have fs: "filter_stage lib (st ! r) = Inr (filter_data v3)"
      using a3 by (simp add: filter_stage_def v2_def)
    obtain res5 st5 r5 where c5: "convert_data_types_obj lib st4 r4 = (res5, st5, r5)"
      by (cases "convert_data_types_obj lib st4 r4") auto
    show ?thesis
    proof (cases res5)
      case (Some e)
      with c5 convert_obj_tracks[OF t4, of lib] obtain v5
        where "convert_data_types lib (filter_data v3) = Inl e" and t5: "tracks base st5 r5 v5"
        by auto
      then show ?thesis
        using Inr p3 c1 n f4 c5 Some keep[OF t5] fs
        by (simp add: transform_data_obj_def transform_data_def stages_def)
    next
      case None
      with c5 convert_obj_tracks[OF t4, of lib] obtain v5
        where cv: "convert_data_types lib (filter_data v3) = Inr v5" and t5: "tracks base st5 r5 v5"
        by auto
      obtain st6 r6 where d6: "remove_duplicates_obj st5 r5 = (st6, r6)" by force
      then have t6: "tracks base st6 r6 (remove_duplicates v5)"
        using tracks_in_place[OF t5] by (simp add: remove_duplicates_obj_def)
      obtain st7 r7 where m7: "map_fields_obj st6 r6 = (st7, r7)" by force
      then have t7: "tracks base st7 r7 (map_fields (remove_duplicates v5))"
        using tracks_in_place[OF t6] by (simp add: map_fields_obj_def)
      have pre: "transform_data_obj lib now st r table_name =
        (case validate_data_obj st7 r7 of
        Inl e \<Rightarrow> (Inl e, st7)
      | Inr (st8, r8) \<Rightarrow>
      case payloads lib (st8 ! r8) (rows (st8 ! r8)) of
        Inl e \<Rightarrow> (Inl e, st8)
      | Inr ps \<Rightarrow>
      case in_place (\<lambda>df. add_metadata now table_name df ps) st8 r8 of (st9, r9) \<Rightarrow>
      case fresh (select_columns (st9 ! r9) [''data'', ''date_time'', ''tag'']) st9 of
        (st10, r10) \<Rightarrow> (Inr r10, st10))"
        using Inr p3 c1 n f4 c5 None d6 m7 by (simp add: transform_data_obj_def)
      have st8eq: "stages lib (st ! r) = validate_data (map_fields (remove_duplicates v5))"
        using fs cv by (simp add: stages_def)
      show ?thesis
      proof (cases "validate_data_obj st7 r7")
        case (Inl e)
        with validate_obj_tracks[OF t7] have "validate_data (map_fields (remove_duplicates v5)) = Inl e"
          by simp
        then show ?thesis using pre Inl keep[OF t7] st8eq by (simp add: transform_data_def)
      next
        case (Inr p8)
        obtain st8 r8 where p8: "p8 = (st8, r8)" by force
        with Inr validate_obj_tracks[OF t7] obtain v8
          where v8: "validate_data (map_fields (remove_duplicates v5)) = Inr v8"
            and t8: "tracks base st8 r8 v8" by auto
        have s8: "st8 ! r8 = v8" using t8 by (simp add: tracks_def)
        show ?thesis
        proof (cases "payloads lib v8 (rows v8)")
          case (Inl e)
          then show ?thesis using pre Inr p8 s8 keep[OF t8] st8eq v8 by (simp add: transform_data_def)
        next
          case ps: (Inr ps)
          obtain st9 r9 where i9: "in_place (\<lambda>df. add_metadata now table_name df ps) st8 r8 = (st9, r9)"
            by force
          have t9: "tracks base st9 r9 (add_metadata now table_name v8 ps)"
            by (rule tracks_in_place[OF t8 i9])
          have s9: "st9 ! r9 = add_metadata now table_name v8 ps" using t9 by (simp add: tracks_def)
          obtain st10 r10 where f10:
            "fresh (select_columns (st9 ! r9) [''data'', ''date_time'', ''tag'']) st9 = (st10, r10)"
            by force
          then have t10: "tracks base st10 r10 (stamp now table_name v8 ps)"
            using tracks_fresh[OF t9] s9 by (simp add: stamp_def)
          have "transform_data_obj lib now st r table_name = (Inr r10, st10)"
            using pre Inr p8 s8 ps i9 f10 by simp
          moreover have "transform_data lib now (st ! r) table_name = Inr (stamp now table_name v8 ps)"
            using st8eq v8 ps by (simp add: transform_data_def)
          ultimately show ?thesis
            using keep[OF t10] t10 lb by (simp add: tracks_def)
        qed
      qed
    qed
  qed
qed

lemma clean_data_id_iff: "clean_data df = df \<longleftrightarrow> no_nulls df"
proof -
  have "clean_data df = df \<longleftrightarrow> filter (\<lambda>r. \<not> list_ex isnull r) (rows df) = rows df"
    by (cases df) (simp add: clean_data_def)
  also have "\<dots> \<longleftrightarrow> no_nulls df"
    by (auto simp: filter_id_conv no_nulls_def list_all_iff list_ex_iff)
  finally show ?thesis .
qed

lemma aggregate_obj_effect:
  assumes "r < length st"
  shows "case aggregate_data_obj lib st r of
           Inl e \<Rightarrow> aggregate_data lib (st ! r) = Inl e
         | Inr (st', r') \<Rightarrow>
             take (length st) st' = st \<and> r' < length st' \<and>
             aggregate_data lib (st ! r) = Inr (st' ! r') \<and>
             (r' = r) = (\<not> (''category'' \<in> set (columns (st ! r)) \<and> ''amount'' \<in> set (columns (st ! r))))"
proof (cases "''category'' \<in> set (columns (st ! r)) \<and> ''amount'' \<in> set (columns (st ! r))")
  case True
  then show ?thesis
    using assms by (auto simp: aggregate_data_obj_def fresh_def split: sum.splits)
next
  case False
  then have "aggregate_data lib (st ! r) = Inr (st ! r)" by (auto simp: aggregate_data_def)
  with False assms show ?thesis by (auto simp: aggregate_data_obj_def)
qed

lemma filter_obj_effect:
  assumes "r < length st"
  shows "case filter_data_obj st r of
           (st', r') \<Rightarrow>
             take (length st) st' = st \<and> r' < length st' \<and> st' ! r' = filter_data (st ! r) \<and>
             (r' = r) = (''status'' \<notin> set (columns (st ! r)))"
proof (cases "''status'' \<in> set (columns (st ! r))")
  case True
  then show ?thesis using assms by (auto simp: filter_data_obj_def fresh_def)
next
  case False
  then have "filter_data (st ! r) = st ! r" by (simp add: filter_data_def)
  with False assms show ?thesis by (simp add: filter_data_obj_def)
qed

lemma validate_obj_effect:
  assumes "r < length st"
  shows "case validate_data_obj st r of
           Inl e \<Rightarrow> validate_data (st ! r) = Inl e
         | Inr (st', r') \<Rightarrow>
             take (length st) st' = st \<and> r' < length st' \<and>
             validate_data (st ! r) = Inr (st' ! r') \<and>
             (r' = r) = (''amount'' \<notin> set (columns (st ! r)))"
proof (cases "''amount'' \<in> set (columns (st ! r))")
  case True
  then show ?thesis
    using assms by (auto simp: validate_data_obj_def fresh_def split: sum.splits)
next
  case False
  then have "validate_data (st ! r) = Inr (st ! r)" by (auto simp: validate_data_def)
  with False assms show ?thesis by (auto simp: validate_data_obj_def)
qed

lemma convert_obj_effect:
  assumes "r < length st"
  shows "case convert_data_types_obj lib st r of
           (res, st', r') \<Rightarrow>
             r' = r \<and> length st' = length st \<and> st'[r := st ! r] = st \<and>
             (case res of
                Some e \<Rightarrow> convert_data_types lib (st ! r) = Inl e
              | None \<Rightarrow> convert_data_types lib (st ! r) = Inr (st' ! r))"
  using assms
  by (auto simp: convert_data_types_obj_def convert_data_types_def split: prod.splits option.splits)

text \<open>
  C9, as the code has it, for a batch object \<open>r\<close> of the store \<open>st\<close>.
  \<^item> \<^verbatim>\<open>clean_data\<close>, \<^verbatim>\<open>remove_duplicates\<close>, \<^verbatim>\<open>map_fields\<close> and
    \<^verbatim>\<open>convert_data_types\<close> work in place: the object passed in is updated to the stage's
    output, the same object is returned, and no other object changes.
  \<^item> \<^verbatim>\<open>normalize_data\<close> always, and \<^verbatim>\<open>aggregate_data\<close>, \<^verbatim>\<open>filter_data\<close> and
    \<^verbatim>\<open>validate_data\<close> exactly when they apply (both \<^verbatim>\<open>category\<close> and
    \<^verbatim>\<open>amount\<close> present; \<^verbatim>\<open>status\<close> present; \<^verbatim>\<open>amount\<close> present), return a new
    object that holds the stage's output, and leave the object passed in and every other
    object of the store as they were; when they do not apply they return the object passed
    in, unchanged.
  \<^item> \<^verbatim>\<open>transform_data\<close> returns a new object (the value of \<open>transform_data\<close>) or
    raises, and in both cases leaves every object the caller had untouched but the batch
    passed in, which is left holding the output of \<^verbatim>\<open>clean_data\<close>: its columns and
    those of its rows that have no missing value. The batch passed in is therefore unchanged
    exactly when it had no missing value.
\<close>

theorem stages_and_caller_batch:
  assumes "r < length st"
  shows "clean_data_obj st r = (st[r := clean_data (st ! r)], r) \<and>
         remove_duplicates_obj st r = (st[r := remove_duplicates (st ! r)], r) \<and>
         map_fields_obj st r = (st[r := map_fields (st ! r)], r) \<and>
         (case convert_data_types_obj lib st r of
            (res, st', r') \<Rightarrow>
              r' = r \<and> length st' = length st \<and> st'[r := st ! r] = st \<and>
              (case res of
                 Some e \<Rightarrow> convert_data_types lib (st ! r) = Inl e
               | None \<Rightarrow> convert_data_types lib (st ! r) = Inr (st' ! r))) \<and>
         normalize_data_obj st r = (st @ [normalize_data (st ! r)], length st) \<and>
         (case aggregate_data_obj lib st r of
            Inl e \<Rightarrow> aggregate_data lib (st ! r) = Inl e
          | Inr (st', r') \<Rightarrow>
              take (length st) st' = st \<and> r' < length st' \<and>
              aggregate_data lib (st ! r) = Inr (st' ! r') \<and>
              (r' = r) = (\<not> (''category'' \<in> set (columns (st ! r)) \<and>
                             ''amount'' \<in> set (columns (st ! r))))) \<and>
         (case filter_data_obj st r of
            (st', r') \<Rightarrow>
              take (length st) st' = st \<and> r' < length st' \<and> st' ! r' = filter_data (st ! r) \<and>
              (r' = r) = (''status'' \<notin> set (columns (st ! r)))) \<and>
         (case validate_data_obj st r of
            Inl e \<Rightarrow> validate_data (st ! r) = Inl e
          | Inr (st', r') \<Rightarrow>
              take (length st) st' = st \<and> r' < length st' \<and>
              validate_data (st ! r) = Inr (st' ! r') \<and>
              (r' = r) = (''amount'' \<notin> set (columns (st ! r)))) \<and>
         (case transform_data_obj lib now st r table_name of
            (res, st') \<Rightarrow>
              take (length st) st' = st[r := clean_data (st ! r)] \<and>
              (case res of
                 Inl e \<Rightarrow> transform_data lib now (st ! r) table_name = Inl e
               | Inr r' \<Rightarrow> length st \<le> r' \<and> r' < length st' \<and>
                          transform_data lib now (st ! r) table_name = Inr (st' ! r'))) \<and>
         (clean_data (st ! r) = st ! r) = no_nulls (st ! r)"
proof -
  have c: "clean_data_obj st r = (st[r := clean_data (st ! r)], r)"
    and d: "remove_duplicates_obj st r = (st[r := remove_duplicates (st ! r)], r)"
    and m: "map_fields_obj st r = (st[r := map_fields (st ! r)], r)"
    and n: "normalize_data_obj st r = (st @ [normalize_data (st ! r)], length st)"
    by (simp_all add: clean_data_obj_def remove_duplicates_obj_def map_fields_obj_def
        normalize_data_obj_def in_place_def fresh_def)
  from c d m convert_obj_effect[OF assms, of lib] n aggregate_obj_effect[OF assms, of lib]
    filter_obj_effect[OF assms] validate_obj_effect[OF assms]
    transform_obj_effect[OF assms, of lib now table_name] clean_data_id_iff[of "st ! r"]
  show ?thesis by - (intro conjI; assumption)
qed

theorem stages_and_caller_batch_witness:
  "take 1 (snd (transform_data_obj plain_lib (Timestamp 2024 11 4 12 0 0) [nulls_batch] 0 ''people'')) =
     [\<lparr>columns = [''id'', ''name''], rows = [[IntV 1, StrV ''x'']]\<rparr>]"
proof -
  from stages_and_caller_batch[of 0 "[nulls_batch]" plain_lib "Timestamp 2024 11 4 12 0 0" "''people''"]
  have "case transform_data_obj plain_lib (Timestamp 2024 11 4 12 0 0) [nulls_batch] 0 ''people'' of
          (res, st') \<Rightarrow> take (length [nulls_batch]) st' = [nulls_batch][0 := clean_data ([nulls_batch] ! 0)]"
    by (auto split: prod.splits)
  then show ?thesis
    by (auto simp: nulls_batch_def clean_data_def split: prod.splits)
qed

text \<open>
  C9 as stated fails: after \<^verbatim>\<open>clean_data\<close>, and after \<^verbatim>\<open>transform_data\<close>, a batch
  that had a row with a missing value no longer holds that row.
\<close>

theorem clean_changes_caller_batch:
  "fst (clean_data_obj [nulls_batch] 0) ! 0 \<noteq> nulls_batch \<and>
   snd (transform_data_obj plain_lib (Timestamp 2024 11 4 12 0 0) [nulls_batch] 0 ''people'') ! 0
     \<noteq> nulls_batch"
proof -
  have c: "clean_data nulls_batch \<noteq> nulls_batch"
    by (simp add: clean_data_def nulls_batch_def)
  obtain res st' where
    t: "transform_data_obj plain_lib (Timestamp 2024 11 4 12 0 0) [nulls_batch] 0 ''people'' = (res, st')"
    by force
  with transform_obj_effect[of 0 "[nulls_batch]" plain_lib "Timestamp 2024 11 4 12 0 0" "''people''"]
  have "take 1 st' = [clean_data nulls_batch]" by simp
  then have "st' ! 0 = clean_data nulls_batch"
    by (metis nth_take nth_Cons_0 zero_less_one)
  with c t show ?thesis by (simp add: clean_data_obj_def in_place_def)
qed

subsection \<open>The status filter inside the pipeline\<close>

lemma code_lower_char:
  "(of_char (lower_char x) :: nat) =
     (if (65 \<le> (of_char x :: nat) \<and> (of_char x :: nat) \<le> 90) \<or>
         (192 \<le> (of_char x :: nat) \<and> (of_char x :: nat) \<le> 222 \<and> (of_char x :: nat) \<noteq> 215)
      then of_char x + 32 else of_char x)"
  by (auto simp: lower_char_def Let_def)

lemma code_upper_char:
  "ascii_lower c \<Longrightarrow> (of_char (upper_char c) :: nat) = of_char c - 32"
  by (auto simp: upper_char_def ascii_lower_def Let_def)

lemma lower_char_eq:
  assumes "ascii_lower c"
  shows "lower_char x = c \<longleftrightarrow> x = c \<or> x = upper_char c"
proof -
  define n m :: nat where "n = of_char x" and "m = of_char c"
  have m: "97 \<le> m \<and> m \<le> 122" using assms by (simp add: ascii_lower_def m_def)
  have n: "n < 256" by (simp add: n_def)
  have A: "lower_char x = c \<longleftrightarrow>
      (if (65 \<le> n \<and> n \<le> 90) \<or> (192 \<le> n \<and> n \<le> 222 \<and> n \<noteq> 215) then n + 32 else n) = m"
    unfolding n_def m_def code_lower_char[symmetric] by (simp only: of_char_eq_iff)
  have B: "x = c \<longleftrightarrow> n = m"
    unfolding n_def m_def by (simp only: of_char_eq_iff)
  have "x = upper_char c \<longleftrightarrow> (of_char x :: nat) = of_char (upper_char c)"
    by (simp only: of_char_eq_iff)
  then have C: "x = upper_char c \<longleftrightarrow> n = m - 32"
    unfolding n_def m_def by (simp only: code_upper_char[OF assms])
  show ?thesis
    unfolding A B C using m n by (cases "65 \<le> n \<and> n \<le> 90") auto
qed

lemma lower_eq_capitalization:
  assumes "list_all ascii_lower t"
  shows "lower s = t \<longleftrightarrow> s \<in> set (capitalizations t)"
  using assms
proof (induction t arbitrary: s)
  case Nil
  then show ?case by (simp add: lower_def)
next
  case (Cons c t)
  show ?case
  proof (cases s)
    case Nil
    then show ?thesis by (auto simp: lower_def)
  next
    case (Cons x u)
    have "lower u = t \<longleftrightarrow> u \<in> set (capitalizations t)"
      using Cons.IH Cons.prems by simp
    moreover have "lower_char x = c \<longleftrightarrow> x = c \<or> x = upper_char c"
      using Cons.prems by (simp add: lower_char_eq)
    ultimately show ?thesis
      using Cons by (auto simp: lower_def)
  qed
qed

lemma active_ascii: "list_all ascii_lower ''active''"
  by (simp add: ascii_lower_def)

lemma lower_active: "lower s = ''active'' \<longleftrightarrow> s \<in> set (capitalizations ''active'')"
  by (rule lower_eq_capitalization[OF active_ascii])

lemma strftime_cell_idem: "strftime_cell (strftime_cell x) = strftime_cell x"
  by (cases x rule: strftime_cell.cases) auto

lemma fmt_trans: "fmt x y \<Longrightarrow> fmt y z \<Longrightarrow> fmt x z"
  by (auto simp: fmt_def strftime_cell_idem)

lemma fmt_refl: "fmt x x"
  by (simp add: fmt_def)

lemma list_all2_fmt_trans:
  "list_all2 fmt r r' \<Longrightarrow> list_all2 fmt r' r'' \<Longrightarrow> list_all2 fmt r r''"
  by (rule list_all2_trans[of fmt fmt fmt]) (auto intro: fmt_trans)

lemma cell_of_nth:
  assumes "distinct cols" "length r = length cols" "j < length cols"
  shows "cell_of cols r (cols ! j) = r ! j"
  using map_of_zip_nth[of cols r j] assms by (simp add: cell_of_def)

lemma update_cell_fmt:
  assumes "distinct cols" "length r = length cols"
  shows "list_all2 fmt r (update_cell cols c (strftime_cell (cell_of cols r c)) r)"
proof (rule list_all2_all_nthI)
  show "length r = length (update_cell cols c (strftime_cell (cell_of cols r c)) r)"
    using assms by (simp add: update_cell_def)
next
  fix j assume j: "j < length r"
  then have "update_cell cols c (strftime_cell (cell_of cols r c)) r ! j =
      (if cols ! j = c then strftime_cell (cell_of cols r c) else r ! j)"
    using assms by (simp add: update_cell_def)
  moreover have "cols ! j = c \<Longrightarrow> cell_of cols r c = r ! j"
    using cell_of_nth[OF assms, of j] j assms by auto
  ultimately show "fmt (r ! j) (update_cell cols c (strftime_cell (cell_of cols r c)) r ! j)"
    by (auto simp: fmt_def)
qed

lemma format_column_fmt:
  assumes "wf_frame df"
  shows "wf_frame (format_datetime_column df c) \<and>
         columns (format_datetime_column df c) = columns df \<and>
         list_all2 (list_all2 fmt) (rows df) (rows (format_datetime_column df c))"
proof (cases "dtype_of (column df c) = Datetime64 \<and> c \<in> set (columns df)")
  case True
  have rows': "rows (format_datetime_column df c) =
      map (\<lambda>r. update_cell (columns df) c (strftime_cell (cell_of (columns df) r c)) r) (rows df)"
    using True by (simp add: format_datetime_column_def set_column_def column_def zip_map_same comp_def)
  have cols': "columns (format_datetime_column df c) = columns df"
    using True by (simp add: format_datetime_column_def set_column_def)
  have each: "list_all2 fmt r (update_cell (columns df) c (strftime_cell (cell_of (columns df) r c)) r)"
    if "r \<in> set (rows df)" for r
    using that assms by (intro update_cell_fmt) (auto simp: wf_frame_def list_all_iff)
  have rel: "list_all2 (list_all2 fmt) (rows df) (rows (format_datetime_column df c))"
    unfolding rows' by (rule list_all2_all_nthI) (auto intro: each)
  have "wf_frame (format_datetime_column df c)"
    using assms cols' rows' by (auto simp: wf_frame_def list_all_iff update_cell_def)
  with cols' rel show ?thesis by simp
next
  case False
  have "format_datetime_column df c = df"
  proof (cases "c \<in> set (columns df)")
    case True
    with False show ?thesis by (simp add: format_datetime_column_def)
  next
    case nin: False
    then have nn: "map_of (zip (columns df) r) c = None" for r
      by (auto simp: map_of_eq_None_iff dest: set_zip_leftD)
    have "column df c = map (\<lambda>r. NoneV) (rows df)"
      by (simp add: column_def cell_of_def nn)
    then have "dtype_of (column df c) \<noteq> Datetime64"
      by (cases "rows df") (auto simp: dtype_of_def list_all_iff)
    then show ?thesis by (simp add: format_datetime_column_def)
  qed
  with assms show ?thesis by (simp add: list_all2_refl fmt_refl)
qed

lemma foldl_format_fmt:
  assumes "wf_frame df"
  shows "wf_frame (foldl format_datetime_column df cs) \<and>
         columns (foldl format_datetime_column df cs) = columns df \<and>
         list_all2 (list_all2 fmt) (rows df) (rows (foldl format_datetime_column df cs))"
  using assms
proof (induction cs arbitrary: df)
  case Nil
  then show ?case by (simp add: list_all2_refl fmt_refl)
next
  case (Cons c cs)
  from format_column_fmt[OF Cons.prems, of c]
  have w: "wf_frame (format_datetime_column df c)"
    and k: "columns (format_datetime_column df c) = columns df"
    and r: "list_all2 (list_all2 fmt) (rows df) (rows (format_datetime_column df c))" by auto
  from Cons.IH[OF w] k r show ?case
    by (auto intro: list_all2_trans[of "list_all2 fmt" "list_all2 fmt" "list_all2 fmt"] list_all2_fmt_trans)
qed

lemma wf_clean: "wf_frame df \<Longrightarrow> wf_frame (clean_data df)"
  by (auto simp: wf_frame_def clean_data_def list_all_iff)

lemma normalize_fmt:
  assumes "wf_frame df"
  shows "wf_frame (normalize_data df) \<and> columns (normalize_data df) = columns df \<and>
         list_all2 (list_all2 fmt) (map (map lower_cell) (rows df)) (rows (normalize_data df))"
proof -
  let ?d = "applymap lower_cell df"
  have "wf_frame ?d" using assms by (auto simp: wf_frame_def applymap_def list_all_iff)
  from foldl_format_fmt[OF this, of "columns ?d"] show ?thesis
    by (simp add: normalize_data_def Let_def applymap_def)
qed

lemma strftime_not_active: "strftime t \<noteq> ''active''"
proof
  assume "strftime t = ''active''"
  moreover have "CHR ''-'' \<in> set (strftime t)" by (simp add: strftime_def)
  ultimately show False by simp
qed

lemma status_after_normalize:
  assumes "fmt (lower_cell x) y"
  shows "y = StrV ''active'' \<longleftrightarrow> active_variant x"
proof (cases x)
  case (StrV s)
  with assms have "y = StrV (lower s)" by (auto simp: fmt_def)
  with StrV show ?thesis by (simp add: lower_active)
next
  case (TimeV t)
  with assms show ?thesis using strftime_not_active[of t] by (auto simp: fmt_def)
next
  case (FltV f)
  with assms show ?thesis by (cases f) (auto simp: fmt_def)
qed (use assms in \<open>auto simp: fmt_def\<close>)

lemma cell_of_rel:
  assumes "distinct cols" "length r = length cols" "list_all2 fmt (map lower_cell r) r'" "c \<in> set cols"
  shows "fmt (lower_cell (cell_of cols r c)) (cell_of cols r' c)"
proof -
  from assms(4) obtain j where j: "j < length cols" "cols ! j = c" by (auto simp: in_set_conv_nth)
  have l': "length r' = length cols" using assms(2,3) by (auto dest: list_all2_lengthD)
  have "cell_of cols r c = r ! j" using cell_of_nth[OF assms(1,2) j(1)] j(2) by simp
  moreover have "cell_of cols r' c = r' ! j" using cell_of_nth[OF assms(1) l' j(1)] j(2) by simp
  moreover have "fmt (map lower_cell r ! j) (r' ! j)"
    using assms(2,3) j(1) by (auto dest: list_all2_nthD)
  ultimately show ?thesis using j(1) assms(2) by simp
qed

lemma filter_related:
  assumes "list_all2 (\<lambda>r r'. P' r' = P r) xs ys"
  shows "filter P' ys = map snd (filter (\<lambda>(r, r'). P r) (zip xs ys))"
  using assms by (induction rule: list_all2_induct) auto

text \<open>
  C10, as the code has it. For a batch with a \<^verbatim>\<open>status\<close> column on which the
  aggregation does not fire (the labels \<^verbatim>\<open>category\<close> and \<^verbatim>\<open>amount\<close> are not both
  present), the batch leaving the filter stage is \<^verbatim>\<open>filter_data\<close> of the normalised
  cleaned batch, whose test is equality with the string \<^verbatim>\<open>active\<close>, and its rows are
  exactly the normalised rows of the cleaned records whose source status is a capitalisation
  of \<^verbatim>\<open>active\<close>.
\<close>

theorem status_filter_keeps_active:
  assumes "wf_frame df" and "''status'' \<in> set (columns df)"
    and "\<not> (''category'' \<in> set (columns df) \<and> ''amount'' \<in> set (columns df))"
  shows "filter_stage lib df = Inr (filter_data (normalize_data (clean_data df))) \<and>
         filter_data (normalize_data (clean_data df)) =
           (normalize_data (clean_data df))\<lparr>rows := active_rows df\<rparr>"
proof -
  let ?c = "clean_data df" and ?n = "normalize_data (clean_data df)"
  have wc: "wf_frame ?c" using assms(1) by (rule wf_clean)
  have cc: "columns ?c = columns df" by (simp add: clean_data_def)
  from normalize_fmt[OF wc] have cn: "columns ?n = columns df"
    and rel: "list_all2 (list_all2 fmt) (map (map lower_cell) (rows ?c)) (rows ?n)"
    using cc by auto
  have agg: "aggregate_data lib ?n = Inr ?n" using assms(3) cn by (auto simp: aggregate_data_def)
  have rel2: "list_all2 (\<lambda>r r'. (cell_of (columns df) r' ''status'' = StrV ''active'') =
                 active_variant (cell_of (columns df) r ''status'')) (rows ?c) (rows ?n)"
  proof (rule list_all2_all_nthI)
    show "length (rows ?c) = length (rows ?n)" using rel by (auto dest: list_all2_lengthD)
  next
    fix i assume i: "i < length (rows ?c)"
    then have "list_all2 fmt (map lower_cell (rows ?c ! i)) (rows ?n ! i)"
      using rel by (auto dest: list_all2_nthD)
    moreover have "length (rows ?c ! i) = length (columns df)" "distinct (columns df)"
      using wc cc i by (auto simp: wf_frame_def list_all_iff)
    ultimately have "fmt (lower_cell (cell_of (columns df) (rows ?c ! i) ''status''))
        (cell_of (columns df) (rows ?n ! i) ''status'')"
      using assms(2) by (intro cell_of_rel) auto
    then show "(cell_of (columns df) (rows ?n ! i) ''status'' = StrV ''active'') =
                 active_variant (cell_of (columns df) (rows ?c ! i) ''status'')"
      by (rule status_after_normalize)
  qed
  have "filter_data ?n = ?n\<lparr>rows := active_rows df\<rparr>"
    using assms(2) cn filter_related[OF rel2] by (simp add: filter_data_def active_rows_def)
  with agg show ?thesis by (simp add: filter_stage_def)
qed

lemma accounts_normalized:
  "normalize_data (clean_data accounts_batch) =
     \<lparr>columns = [''id'', ''status''],
      rows = [[IntV 1, StrV ''active''], [IntV 2, StrV ''active''], [IntV 3, StrV ''inactive''],
              [IntV 4, StrV ''active''], [IntV 6, StrV ''actve'']]\<rparr>"
  by code_simp

lemma accounts_active_rows:
  "active_rows accounts_batch =
     [[IntV 1, StrV ''active''], [IntV 2, StrV ''active''], [IntV 4, StrV ''active'']]"
  by code_simp

theorem status_filter_keeps_active_witness:
  "filter_stage plain_lib accounts_batch =
     Inr \<lparr>columns = [''id'', ''status''],
          rows = [[IntV 1, StrV ''active''], [IntV 2, StrV ''active''], [IntV 4, StrV ''active'']]\<rparr>"
  using status_filter_keeps_active[of accounts_batch plain_lib]
  by (simp add: accounts_normalized accounts_active_rows)
     (simp add: accounts_batch_def wf_frame_def)

lemma orders_active_rows:
  "active_rows orders_batch = [[StrV ''active'', IntV 500, StrV ''a'', StrV ''2024-01-05'']]"
  by code_simp

text \<open>
  C10 as stated fails on the two-row batch of \<^verbatim>\<open>orders\<close>: aggregation runs between
  normalisation and the filter and drops the status column, so the record whose status is
  \<^verbatim>\<open>inactive\<close> is not dropped; it is merged into the row that leaves the filter stage.
\<close>

theorem aggregation_bypasses_status_filter:
  "filter_stage plain_lib orders_batch = Inr orders_aggregate \<and>
   active_rows orders_batch = [[StrV ''active'', IntV 500, StrV ''a'', StrV ''2024-01-05'']] \<and>
   rows orders_aggregate \<noteq> active_rows orders_batch"
  by (simp add: orders_filter_stage orders_active_rows) (simp add: orders_aggregate_def)

subsection \<open>Rectangular batches through the stages\<close>






















subsection \<open>The rows that leave \<^verbatim>\<open>transform_data\<close>\<close>










subsection \<open>Payloads are valid\<close>





















subsection \<open>Date columns after the type conversion\<close>


























subsection \<open>The records that \<^verbatim>\<open>transform_data\<close> returns\<close>






subsection \<open>Running the process twice\<close>






lemma keep_first_Nil: "keep_first xs = [] \<longleftrightarrow> xs = []"
  by (cases xs) auto





















end
